theory Spec2Isabelle
  imports Main "HOL-Library.Word"
begin

unbundle bit_operations_syntax

section \<open>Data\<close>

text \<open>
  The program is a React component, \<^verbatim>\<open>App.tsx\<close>, in several revisions: the legacy one
  (single-byte rolling-hash key, \<^verbatim>\<open>handleProcess\<close>), one that derives a SHA-256 key inline
  (\<^verbatim>\<open>handleEncrypt\<close>, \<^verbatim>\<open>handleDecrypt\<close>) and one that factors the cipher out
  (\<^verbatim>\<open>deriveKeyBytes\<close>, \<^verbatim>\<open>xorEncryptDecrypt\<close>, \<^verbatim>\<open>handleProcess\<close>).
  Its values are JavaScript strings (sequences of 16-bit code units), \<^verbatim>\<open>Uint8Array\<close>s
  (sequences of bytes) and numbers that stay small enough to be exact.
\<close>

type_synonym byte = "8 word"
type_synonym code_unit = "16 word"
type_synonym js_string = "code_unit list"

text \<open>An ASCII literal as a JavaScript string.\<close>

definition js :: "string \<Rightarrow> js_string" where
  "js s = map (\<lambda>c. word_of_nat (of_char c)) s"

section \<open>The browser primitives the program calls\<close>

subsection \<open>\<^verbatim>\<open>btoa\<close> and \<^verbatim>\<open>atob\<close>\<close>

text \<open>
  The exceptions the calls of the program can raise: the \<^verbatim>\<open>DOMException\<close> named
  \<^verbatim>\<open>InvalidCharacterError\<close>, thrown by \<^verbatim>\<open>btoa\<close> and \<^verbatim>\<open>atob\<close>, and the
  \<^verbatim>\<open>RangeError\<close> of a call with more arguments than the engine accepts.
\<close>

datatype js_error = InvalidCharacterError | RangeError

definition b64_alphabet :: js_string where
  "b64_alphabet = js ''ABCDEFGHIJKLMNOPQRSTUVWXYZabcdefghijklmnopqrstuvwxyz0123456789+/''"

definition b64_char :: "nat \<Rightarrow> code_unit" where
  "b64_char n = b64_alphabet ! n"

fun index_of :: "'a \<Rightarrow> 'a list \<Rightarrow> nat option" where
  "index_of x [] = None"
| "index_of x (y # ys) = (if x = y then Some 0 else map_option Suc (index_of x ys))"

definition b64_value :: "code_unit \<Rightarrow> nat option" where
  "b64_value c = index_of c b64_alphabet"

text \<open>The 6-bit groups of a byte sequence; the last group is filled with zero bits.\<close>

fun b64_sextets :: "byte list \<Rightarrow> nat list" where
  "b64_sextets (a # b # c # rest) =
     [unat a div 4, (unat a mod 4) * 16 + unat b div 16, (unat b mod 16) * 4 + unat c div 64, unat c mod 64]
     @ b64_sextets rest"
| "b64_sextets [a, b] = [unat a div 4, (unat a mod 4) * 16 + unat b div 16, (unat b mod 16) * 4]"
| "b64_sextets [a] = [unat a div 4, (unat a mod 4) * 16]"
| "b64_sextets [] = []"

text \<open>Base64 with the standard alphabet and \<^verbatim>\<open>=\<close> padding (RFC 4648).\<close>

definition b64_encode :: "byte list \<Rightarrow> js_string" where
  "b64_encode bs = map b64_char (b64_sextets bs) @ replicate ((3 - length bs mod 3) mod 3) 0x3D"

text \<open>\<^verbatim>\<open>btoa(s)\<close> throws when a code unit of \<open>s\<close> is above \<open>0xFF\<close>.\<close>

definition btoa :: "js_string \<Rightarrow> js_error + js_string" where
  "btoa s = (if list_ex (\<lambda>c. 0xFF < c) s then Inl InvalidCharacterError
             else Inr (b64_encode (map ucast s)))"

definition is_ascii_whitespace :: "code_unit \<Rightarrow> bool" where
  "is_ascii_whitespace c = (c = 0x09 \<or> c = 0x0A \<or> c = 0x0C \<or> c = 0x0D \<or> c = 0x20)"

text \<open>
  \<^verbatim>\<open>atob\<close> is the forgiving Base64 decoder of the HTML standard: it removes ASCII
  whitespace; when the length is then a multiple of 4 it removes one or two trailing
  \<^verbatim>\<open>=\<close>; it fails when the length is 1 modulo 4 or a character is outside the
  alphabet; a last group of 2 or 3 characters gives 1 or 2 bytes.
\<close>

definition strip_padding :: "js_string \<Rightarrow> js_string" where
  "strip_padding d =
     (if length d mod 4 = 0 then
        (if 2 \<le> length d \<and> last d = 0x3D \<and> last (butlast d) = 0x3D then butlast (butlast d)
         else if 1 \<le> length d \<and> last d = 0x3D then butlast d
         else d)
      else d)"

fun b64_bytes :: "nat list \<Rightarrow> byte list" where
  "b64_bytes (p # q # r # s # rest) =
     [word_of_nat (p * 4 + q div 16), word_of_nat ((q mod 16) * 16 + r div 4), word_of_nat ((r mod 4) * 64 + s)]
     @ b64_bytes rest"
| "b64_bytes [p, q, r] = [word_of_nat (p * 4 + q div 16), word_of_nat ((q mod 16) * 16 + r div 4)]"
| "b64_bytes [p, q] = [word_of_nat (p * 4 + q div 16)]"
| "b64_bytes _ = []"

definition atob :: "js_string \<Rightarrow> js_error + js_string" where
  "atob s =
     (let d = strip_padding (filter (\<lambda>c. \<not> is_ascii_whitespace c) s) in
      if length d mod 4 = 1 then Inl InvalidCharacterError
      else if list_ex (\<lambda>c. b64_value c = None) d then Inl InvalidCharacterError
      else Inr (map ucast (b64_bytes (List.map_filter b64_value d))))"

text \<open>
  \<^verbatim>\<open>String.fromCharCode(...bytes)\<close>: one code unit per byte. The spread passes every
  byte as an argument of its own, and an engine accepts only so many arguments in one
  call (they go on its stack): with more, the call throws a \<^verbatim>\<open>RangeError\<close>. The number
  is the engine's, not the language's; it is the parameter \<open>max_args\<close> here and in the
  handlers that make the call.
\<close>

definition fromCharCode :: "nat \<Rightarrow> byte list \<Rightarrow> js_error + js_string" where
  "fromCharCode max_args bytes =
     (if max_args < length bytes then Inl RangeError else Inr (map ucast bytes))"

subsection \<open>\<^verbatim>\<open>TextEncoder\<close> and \<^verbatim>\<open>TextDecoder\<close>\<close>

definition is_lead :: "code_unit \<Rightarrow> bool" where
  "is_lead c = (0xD800 \<le> c \<and> c \<le> 0xDBFF)"

definition is_trail :: "code_unit \<Rightarrow> bool" where
  "is_trail c = (0xDC00 \<le> c \<and> c \<le> 0xDFFF)"

text \<open>
  \<^verbatim>\<open>encode\<close> first reads the string as scalar values: a surrogate pair is one code
  point, a surrogate on its own becomes U+FFFD.
\<close>

fun scalar_values :: "js_string \<Rightarrow> nat list" where
  "scalar_values [] = []"
| "scalar_values [c] = (if is_lead c \<or> is_trail c then [0xFFFD] else [unat c])"
| "scalar_values (c # d # cs) =
     (if is_lead c then
        (if is_trail d
         then (0x10000 + (unat c - 0xD800) * 0x400 + (unat d - 0xDC00)) # scalar_values cs
         else 0xFFFD # scalar_values (d # cs))
      else if is_trail c then 0xFFFD # scalar_values (d # cs)
      else unat c # scalar_values (d # cs))"

definition utf8_bytes :: "nat \<Rightarrow> byte list" where
  "utf8_bytes cp =
     (if cp < 0x80 then [word_of_nat cp]
      else if cp < 0x800 then
        [word_of_nat (0xC0 + cp div 0x40), word_of_nat (0x80 + cp mod 0x40)]
      else if cp < 0x10000 then
        [word_of_nat (0xE0 + cp div 0x1000), word_of_nat (0x80 + cp div 0x40 mod 0x40),
         word_of_nat (0x80 + cp mod 0x40)]
      else
        [word_of_nat (0xF0 + cp div 0x40000), word_of_nat (0x80 + cp div 0x1000 mod 0x40),
         word_of_nat (0x80 + cp div 0x40 mod 0x40), word_of_nat (0x80 + cp mod 0x40)])"

text \<open>\<^verbatim>\<open>new TextEncoder().encode(s)\<close>. It never throws.\<close>

definition TextEncoder_encode :: "js_string \<Rightarrow> byte list" where
  "TextEncoder_encode s = concat (map utf8_bytes (scalar_values s))"

text \<open>
  The UTF-8 decoder of the Encoding standard, with its state written out: the code point
  being built, the bytes seen and needed, and the bounds of the next continuation byte.
  The program constructs \<^verbatim>\<open>new TextDecoder()\<close> with no options, so the decoder is not
  fatal: a malformed sequence yields U+FFFD and decoding goes on (the offending byte is
  read again when it ends a sequence early).
\<close>

function utf8_decoder :: "nat \<Rightarrow> nat \<Rightarrow> nat \<Rightarrow> nat \<Rightarrow> nat \<Rightarrow> byte list \<Rightarrow> nat list" where
  "utf8_decoder cp seen needed lower upper [] = (if needed \<noteq> 0 then [0xFFFD] else [])"
| "utf8_decoder cp seen needed lower upper (b # bs) =
     (if needed = 0 then
        (if unat b \<le> 0x7F then unat b # utf8_decoder cp seen needed lower upper bs
         else if 0xC2 \<le> unat b \<and> unat b \<le> 0xDF then
           utf8_decoder (unat b mod 0x20) seen 1 lower upper bs
         else if 0xE0 \<le> unat b \<and> unat b \<le> 0xEF then
           utf8_decoder (unat b mod 0x10) seen 2
             (if unat b = 0xE0 then 0xA0 else lower) (if unat b = 0xED then 0x9F else upper) bs
         else if 0xF0 \<le> unat b \<and> unat b \<le> 0xF4 then
           utf8_decoder (unat b mod 0x08) seen 3
             (if unat b = 0xF0 then 0x90 else lower) (if unat b = 0xF4 then 0x8F else upper) bs
         else 0xFFFD # utf8_decoder cp seen needed lower upper bs)
      else if unat b < lower \<or> upper < unat b then
        0xFFFD # utf8_decoder 0 0 0 0x80 0xBF (b # bs)
      else if seen + 1 \<noteq> needed then
        utf8_decoder (cp * 0x40 + unat b mod 0x40) (seen + 1) needed 0x80 0xBF bs
      else (cp * 0x40 + unat b mod 0x40) # utf8_decoder 0 0 0 0x80 0xBF bs)"
  by pat_completeness auto
termination
  by (relation "measure (\<lambda>(cp, seen, needed, lower, upper, bs).
        2 * length bs + (if needed = 0 then 0 else 1))") auto

declare utf8_decoder.simps [simp del]

definition utf16_units :: "nat \<Rightarrow> code_unit list" where
  "utf16_units cp =
     (if cp < 0x10000 then [word_of_nat cp]
      else [word_of_nat (0xD800 + (cp - 0x10000) div 0x400),
            word_of_nat (0xDC00 + (cp - 0x10000) mod 0x400)])"

text \<open>With \<^verbatim>\<open>ignoreBOM\<close> left false, a leading U+FEFF is dropped from the output.\<close>

definition strip_bom :: "nat list \<Rightarrow> nat list" where
  "strip_bom cps = (case cps of [] \<Rightarrow> [] | c # rest \<Rightarrow> if c = 0xFEFF then rest else cps)"

text \<open>\<^verbatim>\<open>new TextDecoder().decode(bytes)\<close>. It never throws.\<close>

definition TextDecoder_decode :: "byte list \<Rightarrow> js_string" where
  "TextDecoder_decode bytes =
     concat (map utf16_units (strip_bom (utf8_decoder 0 0 0 0x80 0xBF bytes)))"

text \<open>
  \<^verbatim>\<open>[...s].map((c) => c.charCodeAt(0))\<close>: the string iterator walks code points, so a
  surrogate pair is one element and contributes its first code unit.
\<close>

fun spread_charCodes :: "js_string \<Rightarrow> code_unit list" where
  "spread_charCodes [] = []"
| "spread_charCodes [c] = [c]"
| "spread_charCodes (c # d # cs) =
     (if is_lead c \<and> is_trail d then c # spread_charCodes cs
      else c # spread_charCodes (d # cs))"

subsection \<open>\<^verbatim>\<open>crypto.subtle.digest("SHA-256", data)\<close>\<close>

text \<open>SHA-256 as FIPS 180-4 defines it, on 32-bit words.\<close>

type_synonym u32 = "32 word"

definition rotr :: "nat \<Rightarrow> u32 \<Rightarrow> u32" where
  "rotr n x = drop_bit n x OR push_bit (32 - n) x"

definition Ch :: "u32 \<Rightarrow> u32 \<Rightarrow> u32 \<Rightarrow> u32" where
  "Ch x y z = (x AND y) XOR (NOT x AND z)"

definition Maj :: "u32 \<Rightarrow> u32 \<Rightarrow> u32 \<Rightarrow> u32" where
  "Maj x y z = (x AND y) XOR (x AND z) XOR (y AND z)"

definition bsig0 :: "u32 \<Rightarrow> u32" where
  "bsig0 x = rotr 2 x XOR rotr 13 x XOR rotr 22 x"

definition bsig1 :: "u32 \<Rightarrow> u32" where
  "bsig1 x = rotr 6 x XOR rotr 11 x XOR rotr 25 x"

definition ssig0 :: "u32 \<Rightarrow> u32" where
  "ssig0 x = rotr 7 x XOR rotr 18 x XOR drop_bit 3 x"

definition ssig1 :: "u32 \<Rightarrow> u32" where
  "ssig1 x = rotr 17 x XOR rotr 19 x XOR drop_bit 10 x"

definition K256 :: "u32 list" where
  "K256 = concat
   [[0x428a2f98, 0x71374491, 0xb5c0fbcf, 0xe9b5dba5, 0x3956c25b, 0x59f111f1, 0x923f82a4, 0xab1c5ed5],
    [0xd807aa98, 0x12835b01, 0x243185be, 0x550c7dc3, 0x72be5d74, 0x80deb1fe, 0x9bdc06a7, 0xc19bf174],
    [0xe49b69c1, 0xefbe4786, 0x0fc19dc6, 0x240ca1cc, 0x2de92c6f, 0x4a7484aa, 0x5cb0a9dc, 0x76f988da],
    [0x983e5152, 0xa831c66d, 0xb00327c8, 0xbf597fc7, 0xc6e00bf3, 0xd5a79147, 0x06ca6351, 0x14292967],
    [0x27b70a85, 0x2e1b2138, 0x4d2c6dfc, 0x53380d13, 0x650a7354, 0x766a0abb, 0x81c2c92e, 0x92722c85],
    [0xa2bfe8a1, 0xa81a664b, 0xc24b8b70, 0xc76c51a3, 0xd192e819, 0xd6990624, 0xf40e3585, 0x106aa070],
    [0x19a4c116, 0x1e376c08, 0x2748774c, 0x34b0bcb5, 0x391c0cb3, 0x4ed8aa4a, 0x5b9cca4f, 0x682e6ff3],
    [0x748f82ee, 0x78a5636f, 0x84c87814, 0x8cc70208, 0x90befffa, 0xa4506ceb, 0xbef9a3f7, 0xc67178f2]]"

type_synonym sha_state = "u32 \<times> u32 \<times> u32 \<times> u32 \<times> u32 \<times> u32 \<times> u32 \<times> u32"

definition H256 :: sha_state where
  "H256 = (0x6a09e667, 0xbb67ae85, 0x3c6ef372, 0xa54ff53a, 0x510e527f, 0x9b05688c, 0x1f83d9ab, 0x5be0cd19)"

fun sha_round :: "sha_state \<Rightarrow> u32 \<times> u32 \<Rightarrow> sha_state" where
  "sha_round (a, b, c, d, e, f, g, h) (k, w) =
     (let t1 = h + bsig1 e + Ch e f g + k + w;
          t2 = bsig0 a + Maj a b c
      in (t1 + t2, a, b, c, d + t1, e, f, g))"

text \<open>The message schedule, as a window of the last 16 words.\<close>

fun schedule :: "nat \<Rightarrow> u32 list \<Rightarrow> u32 list" where
  "schedule 0 ws = []"
| "schedule (Suc n) ws =
     hd ws # schedule n (tl ws @ [ssig1 (ws ! 14) + ws ! 9 + ssig0 (ws ! 1) + ws ! 0])"

fun be_words :: "byte list \<Rightarrow> u32 list" where
  "be_words (b0 # b1 # b2 # b3 # bs) =
     (push_bit 24 (ucast b0) OR push_bit 16 (ucast b1) OR push_bit 8 (ucast b2) OR ucast b3)
     # be_words bs"
| "be_words _ = []"

fun add_state :: "sha_state \<Rightarrow> sha_state \<Rightarrow> sha_state" where
  "add_state (a, b, c, d, e, f, g, h) (a', b', c', d', e', f', g', h') =
     (a + a', b + b', c + c', d + d', e + e', f + f', g + g', h + h')"

definition compress :: "sha_state \<Rightarrow> byte list \<Rightarrow> sha_state" where
  "compress st block = add_state st (foldl sha_round st (zip K256 (schedule 64 (be_words block))))"

fun chunks :: "nat \<Rightarrow> byte list \<Rightarrow> byte list list" where
  "chunks 0 bs = []"
| "chunks (Suc n) bs = take 64 bs # chunks n (drop 64 bs)"

definition be_bytes32 :: "u32 \<Rightarrow> byte list" where
  "be_bytes32 w = [ucast (drop_bit 24 w), ucast (drop_bit 16 w), ucast (drop_bit 8 w), ucast w]"

definition be_bytes64 :: "64 word \<Rightarrow> byte list" where
  "be_bytes64 w = map (\<lambda>i. ucast (drop_bit (8 * i) w)) [7, 6, 5, 4, 3, 2, 1, 0]"

definition sha_pad :: "byte list \<Rightarrow> byte list" where
  "sha_pad msg = msg @ [0x80] @ replicate ((64 - (length msg + 9) mod 64) mod 64) 0
                  @ be_bytes64 (word_of_nat (8 * length msg))"

fun digest_bytes :: "sha_state \<Rightarrow> byte list" where
  "digest_bytes (a, b, c, d, e, f, g, h) = concat (map be_bytes32 [a, b, c, d, e, f, g, h])"

definition sha256 :: "byte list \<Rightarrow> byte list" where
  "sha256 msg = (let p = sha_pad msg in digest_bytes (foldl compress H256 (chunks (length p div 64) p)))"

text \<open>
  The call \<^verbatim>\<open>crypto.subtle.digest("SHA-256", data)\<close> returns a promise, and \<^verbatim>\<open>await\<close>
  throws when the promise is rejected. For the algorithm name \<^verbatim>\<open>"SHA-256"\<close> and a
  \<^verbatim>\<open>Uint8Array\<close> the Web Cryptography standard fulfils it with the digest of the bytes;
  the digest operation has no error case. The page is taken to be a secure context, where
  \<^verbatim>\<open>crypto.subtle\<close> exists.
\<close>

definition subtle_digest_SHA256 :: "byte list \<Rightarrow> js_error + byte list" where
  "subtle_digest_SHA256 data = Inr (sha256 data)"

section \<open>The program\<close>

subsection \<open>The repeating-key XOR transform\<close>

text \<open>
  \<^verbatim>\<open>key[index % key.length]\<close>. For an empty key, \<^verbatim>\<open>index % 0\<close> is \<^verbatim>\<open>NaN\<close>, \<^verbatim>\<open>key[NaN]\<close> is
  \<^verbatim>\<open>undefined\<close>, and \<^verbatim>\<open>byte ^ undefined\<close> is \<^verbatim>\<open>byte ^ 0\<close>: the operand read is 0.
\<close>

definition key_at :: "byte list \<Rightarrow> nat \<Rightarrow> byte" where
  "key_at key index = (if length key = 0 then 0 else key ! (index mod length key))"

text \<open>
  \<^verbatim>\<open>function xorEncryptDecrypt(data: Uint8Array, key: Uint8Array): Uint8Array {
    return data.map((byte, index) => byte ^ key[index % key.length]); }\<close>
\<close>

definition xorEncryptDecrypt :: "byte list \<Rightarrow> byte list \<Rightarrow> byte list" where
  "xorEncryptDecrypt data key = map (\<lambda>(index, byte). byte XOR key_at key index) (enumerate 0 data)"

subsection \<open>Key derivation\<close>

text \<open>
  The legacy derivation:
  \<^verbatim>\<open>function deriveKeyFromPassword(password: string): number {
    let hash = 0;
    for (let i = 0; i < password.length; i++) {
      hash = (hash * 31 + password.charCodeAt(i)) % 256;
    }
    return hash; }\<close>
  The numbers stay below \<open>255 * 31 + 65536\<close>, so the double arithmetic is exact and
  \<open>nat\<close> models it.
\<close>

function deriveKey_loop :: "js_string \<Rightarrow> nat \<Rightarrow> nat \<Rightarrow> nat" where
  "deriveKey_loop password i hash =
     (if i < length password
      then deriveKey_loop password (i + 1) ((hash * 31 + unat (password ! i)) mod 256)
      else hash)"
  by pat_completeness auto
termination
  by (relation "measure (\<lambda>(password, i, hash). length password - i)") auto

declare deriveKey_loop.simps [simp del]

definition deriveKeyFromPassword :: "js_string \<Rightarrow> nat" where
  "deriveKeyFromPassword password = deriveKey_loop password 0 0"

text \<open>
  The digest derivation:
  \<^verbatim>\<open>async function deriveKeyBytes(password: string): Promise<Uint8Array> {
    const encoder = new TextEncoder();
    const data = encoder.encode(password);
    const hashBuffer = await crypto.subtle.digest("SHA-256", data);
    return new Uint8Array(hashBuffer); }\<close>
  The function returns a promise: fulfilled with the key (\<open>Inr\<close>), or rejected with what
  the \<^verbatim>\<open>await\<close> threw (\<open>Inl\<close>).
\<close>

definition deriveKeyBytes :: "js_string \<Rightarrow> js_error + byte list" where
  "deriveKeyBytes password =
     (let data = TextEncoder_encode password in
      case subtle_digest_SHA256 data of
        Inl e \<Rightarrow> Inl e
      | Inr hashBuffer \<Rightarrow> Inr hashBuffer)"

text \<open>
  The revision with \<^verbatim>\<open>handleEncrypt\<close> has the same function under the name
  \<^verbatim>\<open>deriveKeyFromPassword\<close>, as an async arrow function inside the component.
\<close>

definition deriveKeyFromPassword_async :: "js_string \<Rightarrow> js_error + byte list" where
  "deriveKeyFromPassword_async password =
     (let data = TextEncoder_encode password in
      case subtle_digest_SHA256 data of
        Inl e \<Rightarrow> Inl e
      | Inr hashBuffer \<Rightarrow> Inr hashBuffer)"

subsection \<open>The message record and the component state\<close>

datatype Mode = encrypt | decrypt

text \<open>
  \<^verbatim>\<open>interface ChatLog { id?; sender; password; text; mode; timestamp }\<close>, without the id
  that the store assigns. The field \<^verbatim>\<open>text\<close> is \<open>text'\<close> here.
\<close>

record ChatLog =
  sender :: js_string
  password :: js_string
  text' :: js_string
  mode :: Mode
  timestamp :: nat

text \<open>
  The \<^verbatim>\<open>useState\<close> variables the handlers read and set (\<open>st_result\<close> is \<^verbatim>\<open>result\<close>,
  or \<^verbatim>\<open>decryptedResult\<close> in the revisions with \<^verbatim>\<open>handleProcess\<close>), the
  \<^verbatim>\<open>messages\<close> collection that \<^verbatim>\<open>addDoc\<close> appends to, and the texts shown by
  \<^verbatim>\<open>alert\<close>. \<^verbatim>\<open>addDoc\<close> is taken to succeed.
\<close>

record App =
  st_sender :: js_string
  st_password :: js_string
  st_text :: js_string
  st_mode :: Mode
  st_result :: js_string
  messages :: "ChatLog list"
  alerts :: "js_string list"

text \<open>
  The text \<^verbatim>\<open>handleDecrypt\<close> shows from its \<^verbatim>\<open>catch\<close> block (Korean: "decryption
  failed: the key does not match, or format error"), as code units.
\<close>

definition decrypt_failed_message :: js_string where
  "decrypt_failed_message =
     [0xbcf5, 0xd638, 0xd654, 0x20, 0xc2e4, 0xd328, 0x3a, 0x20, 0xd0a4, 0xac00, 0x20, 0xb9de,
      0xc9c0, 0x20, 0xc54a, 0xac70, 0xb098, 0x20, 0xd615, 0xc2dd, 0x20, 0xc624, 0xb958]"

text \<open>
  The text \<^verbatim>\<open>handleProcess\<close> alerts from its \<^verbatim>\<open>catch\<close> block (Korean: "decryption
  failed: not a valid Base64 format").
\<close>

definition not_base64_message :: js_string where
  "not_base64_message =
     [0x26a0, 0xfe0f, 0x20, 0xbcf5, 0xd638, 0xd654, 0x20, 0xc2e4, 0xd328, 0x3a, 0x20, 0xc62c,
      0xbc14, 0xb978, 0x20, 0x42, 0x61, 0x73, 0x65, 0x36, 0x34, 0x20, 0xd615, 0xc2dd, 0xc774,
      0x20, 0xc544, 0xb2d9, 0xb2c8, 0xb2e4, 0x2e]"

subsection \<open>The handlers of the revision with an inline SHA-256 key\<close>

text \<open>
  \<^verbatim>\<open>const handleEncrypt = async () => {
    if (!text || !password || !sender) return;
    const encoder = new TextEncoder();
    const key = await deriveKeyFromPassword(password);
    const bytes = encoder.encode(text);
    const encrypted = bytes.map((b, i) => b ^ key[i % key.length]);
    const encryptedStr = String.fromCharCode(...encrypted);
    const base64 = btoa(encryptedStr);
    setResult(base64);
    await addDoc(collection(db, "messages"), {
      sender, password: "", text: base64, mode: "encrypt", timestamp: Timestamp.now() });
    setText(""); };\<close>
  The time of \<^verbatim>\<open>Timestamp.now()\<close> is the parameter \<open>now\<close>. The handler has no
  \<^verbatim>\<open>try\<close>: an exception leaves it at once, before \<^verbatim>\<open>setResult\<close> and \<^verbatim>\<open>addDoc\<close>, and
  is the result \<open>Inl\<close>.

  The lines from \<^verbatim>\<open>const key\<close> to \<^verbatim>\<open>const base64\<close> compute the ciphertext from the
  plaintext and the password:
\<close>

definition handleEncrypt_base64 :: "nat \<Rightarrow> js_string \<Rightarrow> js_string \<Rightarrow> js_error + js_string" where
  "handleEncrypt_base64 max_args text pw =
     (case deriveKeyFromPassword_async pw of
        Inl e \<Rightarrow> Inl e
      | Inr key \<Rightarrow>
          let bytes = TextEncoder_encode text;
              encrypted = map (\<lambda>(i, b). b XOR key_at key i) (enumerate 0 bytes)
          in case fromCharCode max_args encrypted of
               Inl e \<Rightarrow> Inl e
             | Inr encryptedStr \<Rightarrow> btoa encryptedStr)"

definition handleEncrypt :: "nat \<Rightarrow> nat \<Rightarrow> App \<Rightarrow> js_error + App" where
  "handleEncrypt max_args now s =
     (if st_text s = [] \<or> st_password s = [] \<or> st_sender s = [] then Inr s
      else
        case handleEncrypt_base64 max_args (st_text s) (st_password s) of
          Inl e \<Rightarrow> Inl e
        | Inr base64 \<Rightarrow>
            Inr (s\<lparr>st_result := base64,
                   messages := messages s @
                     [\<lparr>sender = st_sender s, password = [], text' = base64,
                       mode = encrypt, timestamp = now\<rparr>],
                   st_text := []\<rparr>))"

text \<open>
  The \<^verbatim>\<open>try\<close> block of \<^verbatim>\<open>handleDecrypt\<close>:
  \<^verbatim>\<open>const key = await deriveKeyFromPassword(password);
  const binaryStr = atob(text);
  const encrypted = [...binaryStr].map((c) => c.charCodeAt(0));
  const decryptedBytes = encrypted.map((b, i) => b ^ key[i % key.length]);
  const decoder = new TextDecoder();
  const decryptedText = decoder.decode(new Uint8Array(decryptedBytes));\<close>
  Here \<^verbatim>\<open>encrypted\<close> is an array of numbers; \<^verbatim>\<open>new Uint8Array\<close> keeps the low 8 bits.
  The spread \<^verbatim>\<open>[...binaryStr]\<close> builds an array, it is not a call, and has no bound on
  its length.
\<close>

definition handleDecrypt_try :: "js_string \<Rightarrow> js_string \<Rightarrow> js_error + js_string" where
  "handleDecrypt_try text pw =
     (case deriveKeyFromPassword_async pw of
        Inl e \<Rightarrow> Inl e
      | Inr key \<Rightarrow>
          case atob text of
            Inl e \<Rightarrow> Inl e
          | Inr binaryStr \<Rightarrow>
              let encrypted = spread_charCodes binaryStr;
                  decryptedBytes = map (\<lambda>(i, b). b XOR ucast (key_at key i)) (enumerate 0 encrypted)
              in Inr (TextDecoder_decode (map ucast decryptedBytes)))"

text \<open>
  \<^verbatim>\<open>const handleDecrypt = async () => {
    if (!text || !password) return;
    try { ...; setResult(decryptedText); }
    catch (err) { setResult("..."); } };\<close>
\<close>

definition handleDecrypt :: "App \<Rightarrow> App" where
  "handleDecrypt s =
     (if st_text s = [] \<or> st_password s = [] then s
      else case handleDecrypt_try (st_text s) (st_password s) of
             Inr decryptedText \<Rightarrow> s\<lparr>st_result := decryptedText\<rparr>
           | Inl err \<Rightarrow> s\<lparr>st_result := decrypt_failed_message\<rparr>)"

subsection \<open>The handler of the legacy revision\<close>

text \<open>
  \<^verbatim>\<open>const handleProcess = async () => {
    if (!text || (mode === "encrypt" && (!password || !sender))) return;
    const key = deriveKeyFromPassword(password);
    if (mode === "encrypt") {
      const encoder = new TextEncoder();
      const bytes = encoder.encode(text);
      const encrypted = bytes.map((b) => b ^ key);
      const encryptedStr = String.fromCharCode(...encrypted);
      const base64 = btoa(encryptedStr);
      await addDoc(collection(db, "messages"), {
        sender, password: "***", text: base64, mode, timestamp: Timestamp.now() });
      setText("");
    } else {
      try {
        const binaryStr = atob(text);
        const encrypted = [...binaryStr].map((c) => c.charCodeAt(0));
        const decryptedBytes = encrypted.map((b) => b ^ key);
        const decoder = new TextDecoder();
        const decryptedText = decoder.decode(new Uint8Array(decryptedBytes));
        setDecryptedResult(decryptedText);
        setText("");
      } catch { alert("..."); }
    } };\<close>
  The encrypting branch is outside the \<^verbatim>\<open>try\<close>: an exception there leaves the handler
  before \<^verbatim>\<open>addDoc\<close>.
\<close>

definition handleProcess :: "nat \<Rightarrow> nat \<Rightarrow> App \<Rightarrow> js_error + App" where
  "handleProcess max_args now s =
     (if st_text s = [] \<or> (st_mode s = encrypt \<and> (st_password s = [] \<or> st_sender s = []))
      then Inr s
      else
        let key = deriveKeyFromPassword (st_password s) in
        if st_mode s = encrypt then
          (let bytes = TextEncoder_encode (st_text s);
               encrypted = map (\<lambda>b. b XOR word_of_nat key) bytes
           in case fromCharCode max_args encrypted of
                Inl e \<Rightarrow> Inl e
              | Inr encryptedStr \<Rightarrow>
                  case btoa encryptedStr of
                    Inl e \<Rightarrow> Inl e
                  | Inr base64 \<Rightarrow>
                      Inr (s\<lparr>messages := messages s @
                               [\<lparr>sender = st_sender s, password = js ''***'', text' = base64,
                                 mode = st_mode s, timestamp = now\<rparr>],
                             st_text := []\<rparr>))
        else
          (case atob (st_text s) of
             Inl e \<Rightarrow> Inr (s\<lparr>alerts := alerts s @ [not_base64_message]\<rparr>)
           | Inr binaryStr \<Rightarrow>
               let encrypted = spread_charCodes binaryStr;
                   decryptedBytes = map (\<lambda>b. b XOR word_of_nat key) encrypted;
                   decryptedText = TextDecoder_decode (map ucast decryptedBytes)
               in Inr (s\<lparr>st_result := decryptedText, st_text := []\<rparr>)))"

subsection \<open>The handler of the revision with \<^verbatim>\<open>deriveKeyBytes\<close> and \<^verbatim>\<open>xorEncryptDecrypt\<close>\<close>

text \<open>
  \<^verbatim>\<open>const handleProcess = async () => {
    if (!text || (mode === "encrypt" && (!password || !sender))) return;
    const keyBytes = await deriveKeyBytes(password);
    if (mode === "encrypt") {
      const encoder = new TextEncoder();
      const bytes = encoder.encode(text);
      const encrypted = xorEncryptDecrypt(bytes, keyBytes);
      const encryptedStr = String.fromCharCode(...encrypted);
      const base64 = btoa(encryptedStr);
      await addDoc(collection(db, "messages"), {
        sender, password: "***", text: base64, mode, timestamp: Timestamp.now() });
      setText("");
    } else {
      try {
        const binaryStr = atob(text);
        const encrypted = new Uint8Array([...binaryStr].map((c) => c.charCodeAt(0)));
        const decryptedBytes = xorEncryptDecrypt(encrypted, keyBytes);
        const decoder = new TextDecoder();
        const decryptedText = decoder.decode(decryptedBytes);
        setDecryptedResult(decryptedText);
        setText("");
      } catch { alert("..."); }
    } };\<close>
\<close>

definition handleProcess_bytes :: "nat \<Rightarrow> nat \<Rightarrow> App \<Rightarrow> js_error + App" where
  "handleProcess_bytes max_args now s =
     (if st_text s = [] \<or> (st_mode s = encrypt \<and> (st_password s = [] \<or> st_sender s = []))
      then Inr s
      else
        case deriveKeyBytes (st_password s) of
          Inl e \<Rightarrow> Inl e
        | Inr keyBytes \<Rightarrow>
            if st_mode s = encrypt then
              (let bytes = TextEncoder_encode (st_text s);
                   encrypted = xorEncryptDecrypt bytes keyBytes
               in case fromCharCode max_args encrypted of
                    Inl e \<Rightarrow> Inl e
                  | Inr encryptedStr \<Rightarrow>
                      case btoa encryptedStr of
                        Inl e \<Rightarrow> Inl e
                      | Inr base64 \<Rightarrow>
                          Inr (s\<lparr>messages := messages s @
                                   [\<lparr>sender = st_sender s, password = js ''***'', text' = base64,
                                     mode = st_mode s, timestamp = now\<rparr>],
                                 st_text := []\<rparr>))
            else
              (case atob (st_text s) of
                 Inl e \<Rightarrow> Inr (s\<lparr>alerts := alerts s @ [not_base64_message]\<rparr>)
               | Inr binaryStr \<Rightarrow>
                   let encrypted = map ucast (spread_charCodes binaryStr);
                       decryptedBytes = xorEncryptDecrypt encrypted keyBytes;
                       decryptedText = TextDecoder_decode decryptedBytes
                   in Inr (s\<lparr>st_result := decryptedText, st_text := []\<rparr>)))"

section \<open>Notions the properties are stated with\<close>

text \<open>The rolling hash as the specification words it: start at 0, fold over the char codes.\<close>

definition rolling_hash_spec :: "js_string \<Rightarrow> nat" where
  "rolling_hash_spec pw = foldl (\<lambda>hash c. (hash * 31 + unat c) mod 256) 0 pw"

text \<open>A string with no surrogate on its own (\<^verbatim>\<open>String.prototype.isWellFormed\<close>).\<close>

fun well_formed :: "js_string \<Rightarrow> bool" where
  "well_formed [] = True"
| "well_formed [c] = (\<not> is_lead c \<and> \<not> is_trail c)"
| "well_formed (c # d # cs) =
     (if is_lead c then is_trail d \<and> well_formed cs
      else \<not> is_trail c \<and> well_formed (d # cs))"

text \<open>A Unicode scalar value.\<close>

definition is_scalar :: "nat \<Rightarrow> bool" where
  "is_scalar cp = (cp < 0xD800 \<or> (0xE000 \<le> cp \<and> cp < 0x110000))"

text \<open>
  The inputs the decoder of \<^verbatim>\<open>atob\<close> refuses: once ASCII whitespace and the trailing
  padding are removed, the length is 1 modulo 4 or a character is outside the alphabet.
\<close>

definition base64_rejected :: "js_string \<Rightarrow> bool" where
  "base64_rejected enc =
     (let d = strip_padding (filter (\<lambda>c. \<not> is_ascii_whitespace c) enc)
      in length d mod 4 = 1 \<or> list_ex (\<lambda>c. b64_value c = None) d)"

text \<open>The records a run of a handler appended to the collection.\<close>

definition stored :: "App \<Rightarrow> js_error + App \<Rightarrow> ChatLog list" where
  "stored s r = (case r of Inl e \<Rightarrow> [] | Inr t \<Rightarrow> drop (length (messages s)) (messages t))"

text \<open>A state to evaluate the handlers on: sender "bob", nothing shown, nothing stored.\<close>

definition example_state :: "js_string \<Rightarrow> js_string \<Rightarrow> Mode \<Rightarrow> App" where
  "example_state input pw m =
     \<lparr>st_sender = js ''bob'', st_password = pw, st_text = input, st_mode = m,
      st_result = [], messages = [], alerts = []\<rparr>"

section \<open>Base64: decoding what was encoded\<close>

lemma alphabet_length: "length b64_alphabet = 64"
  by (simp add: b64_alphabet_def js_def)

lemma alphabet_distinct: "distinct b64_alphabet"
  by (simp add: b64_alphabet_def js_def)

lemma alphabet_plain: "list_all (\<lambda>c. c \<noteq> 0x3D \<and> \<not> is_ascii_whitespace c \<and> c \<le> 0xFF) b64_alphabet"
  by (simp add: b64_alphabet_def js_def is_ascii_whitespace_def)

lemma index_of_nth: "distinct xs \<Longrightarrow> n < length xs \<Longrightarrow> index_of (xs ! n) xs = Some n"
proof (induction xs arbitrary: n)
  case Nil
  then show ?case by simp
next
  case (Cons y ys)
  show ?case
  proof (cases n)
    case 0
    then show ?thesis by simp
  next
    case (Suc m)
    with Cons.prems have "m < length ys" "ys ! m \<noteq> y" "distinct ys"
      by auto
    with Cons.IH [of m] Suc show ?thesis
      by simp
  qed
qed

lemma b64_value_char: "n < 64 \<Longrightarrow> b64_value (b64_char n) = Some n"
  unfolding b64_value_def b64_char_def
  by (rule index_of_nth) (simp_all only: alphabet_distinct alphabet_length)

lemma b64_char_plain:
  assumes "n < 64"
  shows "b64_char n \<noteq> 0x3D" and "\<not> is_ascii_whitespace (b64_char n)" and "b64_char n \<le> 0xFF"
proof -
  from assms have "b64_char n \<in> set b64_alphabet"
    unfolding b64_char_def by (simp only: nth_mem alphabet_length)
  with alphabet_plain have "b64_char n \<noteq> 0x3D \<and> \<not> is_ascii_whitespace (b64_char n) \<and> b64_char n \<le> 0xFF"
    unfolding list_all_iff by blast
  then show "b64_char n \<noteq> 0x3D" and "\<not> is_ascii_whitespace (b64_char n)" and "b64_char n \<le> 0xFF"
    by blast+
qed

lemma unat_byte_less: "unat (a :: byte) < 256"
  using unsigned_less [of a] by simp

lemma b64_sextets_bound: "list_all (\<lambda>n. n < 64) (b64_sextets bs)"
proof (induction bs rule: b64_sextets.induct)
  case (1 a b c rest)
  have "unat a < 256" "unat b < 256" "unat c < 256"
    using unat_byte_less [of a] unat_byte_less [of b] unat_byte_less [of c] by simp_all
  then have "unat a div 4 < 64" "(unat a mod 4) * 16 + unat b div 16 < 64"
    "(unat b mod 16) * 4 + unat c div 64 < 64" "unat c mod 64 < 64"
    by arith+
  with 1 show ?case by simp
next
  case (2 a b)
  have "unat a < 256" "unat b < 256"
    using unat_byte_less [of a] unat_byte_less [of b] by simp_all
  then have "unat a div 4 < 64" "(unat a mod 4) * 16 + unat b div 16 < 64" "(unat b mod 16) * 4 < 64"
    by arith+
  then show ?case by simp
next
  case (3 a)
  have "unat a < 256"
    using unat_byte_less [of a] by simp
  then have "unat a div 4 < 64" "(unat a mod 4) * 16 < 64"
    by arith+
  then show ?case by simp
next
  case 4
  then show ?case by simp
qed

lemma b64_sextets_length: "length (b64_sextets bs) + (3 - length bs mod 3) mod 3 = 4 * ((length bs + 2) div 3)"
proof (induction bs rule: b64_sextets.induct)
  case (1 a b c rest)
  have "(3 + length rest) mod 3 = length rest mod 3" "(5 + length rest) div 3 = Suc ((length rest + 2) div 3)"
    by arith+
  with 1 show ?case by simp
qed simp_all

lemma b64_bytes_sextets: "b64_bytes (b64_sextets bs) = bs"
proof (induction bs rule: b64_sextets.induct)
  case (1 a b c rest)
  have bb: "unat b div 16 < 16" and cc: "unat c div 64 < 4"
    using unat_byte_less [of b] unat_byte_less [of c] by simp_all
  have "unat a div 4 * 4 + (unat a mod 4 * 16 + unat b div 16) div 16 = unat a"
    using bb by simp
  moreover have "(unat a mod 4 * 16 + unat b div 16) mod 16 * 16 + (unat b mod 16 * 4 + unat c div 64) div 4 = unat b"
    using bb cc by (simp add: div_add1_eq mod_add_eq) 
  moreover have "(unat b mod 16 * 4 + unat c div 64) mod 4 * 64 + unat c mod 64 = unat c"
    using cc by simp
  ultimately show ?case
    using 1 by simp
next
  case (2 a b)
  have bb: "unat b div 16 < 16"
    using unat_byte_less [of b] by simp
  have "unat a div 4 * 4 + (unat a mod 4 * 16 + unat b div 16) div 16 = unat a"
    using bb by simp
  moreover have "(unat a mod 4 * 16 + unat b div 16) mod 16 * 16 + (unat b mod 16 * 4) div 4 = unat b"
    using bb by simp
  ultimately show ?case
    by simp
next
  case (3 a)
  have "unat a div 4 * 4 + (unat a mod 4 * 16) div 16 = unat a"
    by simp
  then show ?case
    by simp
next
  case 4
  then show ?case by simp
qed

lemma map_filter_b64:
  "list_all (\<lambda>n. n < 64) xs \<Longrightarrow> List.map_filter b64_value (map b64_char xs) = xs"
  by (induction xs) (simp_all add: List.map_filter_simps b64_value_char)

lemma no_bad_char:
  "list_all (\<lambda>n. n < 64) xs \<Longrightarrow> \<not> list_ex (\<lambda>c. b64_value c = None) (map b64_char xs)"
  by (induction xs) (simp_all add: b64_value_char)

lemma filter_ws_chars:
  "list_all (\<lambda>n. n < 64) xs \<Longrightarrow> filter (\<lambda>c. \<not> is_ascii_whitespace c) (map b64_char xs) = map b64_char xs"
  by (induction xs) (simp_all add: b64_char_plain)

lemma filter_ws_padding:
  "filter (\<lambda>c. \<not> is_ascii_whitespace c) (replicate k 0x3D) = replicate k 0x3D"
  by (induction k) (simp_all add: is_ascii_whitespace_def)

lemma strip_padding_encoded:
  assumes xs: "list_all (\<lambda>n. n < 64) xs" and k: "k \<le> 2" and len: "(length xs + k) mod 4 = 0"
  shows "strip_padding (map b64_char xs @ replicate k 0x3D) = map b64_char xs"
proof -
  have last_plain: "last (map b64_char xs) \<noteq> 0x3D" if "xs \<noteq> []"
  proof -
    from that xs have "last xs < 64"
      by (simp add: list_all_iff)
    then show ?thesis
      using that by (simp add: last_map b64_char_plain)
  qed
  from k consider "k = 0" | "k = 1" | "k = 2"
    by arith
  then show ?thesis
  proof cases
    case 1
    show ?thesis
    proof (cases "xs = []")
      case True
      with 1 show ?thesis by (simp add: strip_padding_def)
    next
      case False
      with 1 last_plain show ?thesis by (simp add: strip_padding_def)
    qed
  next
    case 2
    with len have "xs \<noteq> []"
      by auto
    with 2 len last_plain show ?thesis
      by (simp add: strip_padding_def)
  next
    case 3
    have "replicate 2 (0x3D :: code_unit) = [0x3D, 0x3D]"
      by (simp add: numeral_2_eq_2)
    with 3 len show ?thesis
      by (simp add: strip_padding_def butlast_append)
  qed
qed

lemma sextets_length_mod: "length (b64_sextets bs) mod 4 \<noteq> 1"
  by (induction bs rule: b64_sextets.induct) simp_all

lemma atob_b64_encode: "atob (b64_encode bs) = Inr (map ucast bs)"
proof -
  let ?xs = "b64_sextets bs" and ?k = "(3 - length bs mod 3) mod 3"
  have xs: "list_all (\<lambda>n. n < 64) ?xs"
    by (rule b64_sextets_bound)
  have k: "?k \<le> 2"
    by arith
  have len: "(length ?xs + ?k) mod 4 = 0"
    by (simp only: b64_sextets_length) simp
  have "filter (\<lambda>c. \<not> is_ascii_whitespace c) (b64_encode bs) = b64_encode bs"
    by (simp add: b64_encode_def filter_ws_chars [OF xs] filter_ws_padding)
  moreover have "strip_padding (b64_encode bs) = map b64_char ?xs"
    unfolding b64_encode_def by (rule strip_padding_encoded [OF xs k len])
  ultimately show ?thesis
    using sextets_length_mod [of bs]
    by (simp add: atob_def no_bad_char [OF xs] map_filter_b64 [OF xs] b64_bytes_sextets)
qed

lemma unat_ucast_byte: "unat (ucast (b :: byte) :: code_unit) = unat b"
proof -
  have "unat b < 2 ^ 16"
    using unat_byte_less [of b] by simp
  then show ?thesis
    by (simp add: unsigned_ucast_eq take_bit_nat_eq_self)
qed

lemma ucast_byte_le: "(ucast (b :: byte) :: code_unit) \<le> 0xFF"
  using unat_byte_less [of b] by (simp add: word_le_nat_alt unat_ucast_byte)

lemma ucast_ucast_byte: "(ucast (ucast (b :: byte) :: code_unit) :: byte) = b"
  by (rule ucast_up_ucast_id) (simp add: is_up)

lemma btoa_bytes: "btoa (map ucast (bs :: byte list)) = Inr (b64_encode bs)"
proof -
  have "\<not> list_ex (\<lambda>c. 0xFF < c) (map ucast bs :: js_string)"
    by (induction bs) (simp_all add: ucast_byte_le not_less)
  moreover have "map ucast (map ucast bs :: js_string) = bs"
    by (induction bs) (simp_all add: ucast_ucast_byte)
  ultimately show ?thesis
    by (simp add: btoa_def)
qed


section \<open>UTF-8: decoding what was encoded\<close>

lemma unat_of_nat_byte: "n < 256 \<Longrightarrow> unat (word_of_nat n :: byte) = n"
  by (simp add: unat_of_nat)

lemma mod_offset: "x < m \<Longrightarrow> (k * m + x) mod m = (x::nat)"
  by simp

lemma decode_ascii:
  assumes "x < 0x80"
  shows "utf8_decoder 0 0 0 0x80 0xBF (word_of_nat x # rest) = x # utf8_decoder 0 0 0 0x80 0xBF rest"
proof -
  from assms have "unat (word_of_nat x :: byte) = x"
    by (simp add: unat_of_nat_byte)
  with assms show ?thesis
    by (simp add: utf8_decoder.simps)
qed

lemma decode_two:
  assumes "2 \<le> x" "x < 32" "y < 64"
  shows "utf8_decoder 0 0 0 0x80 0xBF (word_of_nat (0xC0 + x) # word_of_nat (0x80 + y) # rest)
         = (x * 64 + y) # utf8_decoder 0 0 0 0x80 0xBF rest"
proof -
  have b0: "unat (0xC0 + word_of_nat x :: byte) = 0xC0 + x"
    using assms unat_of_nat_byte [of "0xC0 + x"] by simp
  have b1: "unat (0x80 + word_of_nat y :: byte) = 0x80 + y"
    using assms unat_of_nat_byte [of "0x80 + y"] by simp
  have m0: "(0xC0 + x) mod 0x20 = x"
    using assms mod_offset [of x 32 6] by simp
  have m1: "(0x80 + y) mod 0x40 = y"
    using assms mod_offset [of y 64 2] by simp
  from assms show ?thesis
    by (simp add: utf8_decoder.simps b0 b1 m0 m1)
qed

lemma decode_three:
  assumes "x < 16" "y < 64" "z < 64" "x = 0 \<longrightarrow> 32 \<le> y" "x = 13 \<longrightarrow> y < 32"
  shows "utf8_decoder 0 0 0 0x80 0xBF
           (word_of_nat (0xE0 + x) # word_of_nat (0x80 + y) # word_of_nat (0x80 + z) # rest)
         = ((x * 64 + y) * 64 + z) # utf8_decoder 0 0 0 0x80 0xBF rest"
proof -
  have b0: "unat (0xE0 + word_of_nat x :: byte) = 0xE0 + x"
    using assms unat_of_nat_byte [of "0xE0 + x"] by simp
  have b1: "unat (0x80 + word_of_nat y :: byte) = 0x80 + y"
    using assms unat_of_nat_byte [of "0x80 + y"] by simp
  have b2: "unat (0x80 + word_of_nat z :: byte) = 0x80 + z"
    using assms unat_of_nat_byte [of "0x80 + z"] by simp
  have m0: "(0xE0 + x) mod 0x10 = x"
    using assms mod_offset [of x 16 14] by simp
  have m1: "(0x80 + y) mod 0x40 = y"
    using assms mod_offset [of y 64 2] by simp
  have m2: "(0x80 + z) mod 0x40 = z"
    using assms mod_offset [of z 64 2] by simp
  from assms show ?thesis
    by (auto simp add: utf8_decoder.simps b0 b1 b2 m0 m1 m2)
qed

lemma decode_four:
  assumes "x < 5" "y < 64" "z < 64" "w < 64" "x = 0 \<longrightarrow> 16 \<le> y" "x = 4 \<longrightarrow> y < 16"
  shows "utf8_decoder 0 0 0 0x80 0xBF
           (word_of_nat (0xF0 + x) # word_of_nat (0x80 + y) # word_of_nat (0x80 + z)
              # word_of_nat (0x80 + w) # rest)
         = (((x * 64 + y) * 64 + z) * 64 + w) # utf8_decoder 0 0 0 0x80 0xBF rest"
proof -
  have b0: "unat (0xF0 + word_of_nat x :: byte) = 0xF0 + x"
    using assms unat_of_nat_byte [of "0xF0 + x"] by simp
  have b1: "unat (0x80 + word_of_nat y :: byte) = 0x80 + y"
    using assms unat_of_nat_byte [of "0x80 + y"] by simp
  have b2: "unat (0x80 + word_of_nat z :: byte) = 0x80 + z"
    using assms unat_of_nat_byte [of "0x80 + z"] by simp
  have b3: "unat (0x80 + word_of_nat w :: byte) = 0x80 + w"
    using assms unat_of_nat_byte [of "0x80 + w"] by simp
  have m0: "(0xF0 + x) mod 0x08 = x"
    using assms mod_offset [of x 8 30] by simp
  have m1: "(0x80 + y) mod 0x40 = y"
    using assms mod_offset [of y 64 2] by simp
  have m2: "(0x80 + z) mod 0x40 = z"
    using assms mod_offset [of z 64 2] by simp
  have m3: "(0x80 + w) mod 0x40 = w"
    using assms mod_offset [of w 64 2] by simp
  from assms show ?thesis
    by (auto simp add: utf8_decoder.simps b0 b1 b2 b3 m0 m1 m2 m3)
qed

lemma decode_utf8_bytes:
  assumes "is_scalar cp"
  shows "utf8_decoder 0 0 0 0x80 0xBF (utf8_bytes cp @ rest) = cp # utf8_decoder 0 0 0 0x80 0xBF rest"
proof -
  define a where "a = cp div 64"
  define w where "w = cp mod 64"
  define b where "b = a div 64"
  define z where "z = a mod 64"
  define x where "x = b div 64"
  define y where "y = b mod 64"
  have cp: "cp = a * 64 + w" and a: "a = b * 64 + z" and b: "b = x * 64 + y"
    by (simp_all add: a_def w_def b_def z_def x_def y_def)
  have lt: "w < 64" "z < 64" "y < 64"
    by (simp_all add: w_def z_def y_def)
  have d1: "cp div 0x40 = a" and m1: "cp mod 0x40 = w"
    by (simp_all add: a_def w_def)
  have d2: "cp div 0x1000 = b"
    using div_mult2_eq [of cp 64 64] by (simp add: a_def b_def)
  have d3: "cp div 0x40000 = x"
    using div_mult2_eq [of cp 4096 64] d2 by (simp add: x_def)
  consider "cp < 0x80" | "0x80 \<le> cp" "cp < 0x800" | "0x800 \<le> cp" "cp < 0x10000" | "0x10000 \<le> cp"
    by linarith
  then show ?thesis
  proof cases
    case 1
    then show ?thesis
      by (simp add: utf8_bytes_def decode_ascii)
  next
    case 2
    with cp lt have "2 \<le> a" "a < 32"
      by linarith+
    then have dec: "utf8_decoder 0 0 0 0x80 0xBF (word_of_nat (0xC0 + a) # word_of_nat (0x80 + w) # rest)
         = (a * 64 + w) # utf8_decoder 0 0 0 0x80 0xBF rest"
      using lt by (intro decode_two)
    have bytes: "utf8_bytes cp = [word_of_nat (0xC0 + a), word_of_nat (0x80 + w)]"
      using 2 by (simp add: utf8_bytes_def d1 m1 del: of_nat_add)
    show ?thesis
      by (simp only: bytes append_Cons append_Nil dec cp [symmetric])
  next
    case 3
    with cp a lt have "b < 16" "b = 0 \<longrightarrow> 32 \<le> z"
      by linarith+
    moreover have "b = 13 \<longrightarrow> z < 32"
      using assms 3 cp a lt unfolding is_scalar_def by linarith
    ultimately have dec: "utf8_decoder 0 0 0 0x80 0xBF
           (word_of_nat (0xE0 + b) # word_of_nat (0x80 + z) # word_of_nat (0x80 + w) # rest)
         = ((b * 64 + z) * 64 + w) # utf8_decoder 0 0 0 0x80 0xBF rest"
      using lt by (intro decode_three)
    have "cp div 0x40 mod 0x40 = z"
      by (simp add: d1 z_def)
    then have bytes: "utf8_bytes cp =
        [word_of_nat (0xE0 + b), word_of_nat (0x80 + z), word_of_nat (0x80 + w)]"
      using 3 by (simp add: utf8_bytes_def d2 m1 del: of_nat_add)
    show ?thesis
      by (simp only: bytes append_Cons append_Nil dec a [symmetric] cp [symmetric])
  next
    case 4
    have "cp < 0x110000"
      using assms 4 unfolding is_scalar_def by linarith
    with 4 cp a b lt have "x < 5" "x = 0 \<longrightarrow> 16 \<le> y" "x = 4 \<longrightarrow> y < 16"
      by linarith+
    then have dec: "utf8_decoder 0 0 0 0x80 0xBF
           (word_of_nat (0xF0 + x) # word_of_nat (0x80 + y) # word_of_nat (0x80 + z)
              # word_of_nat (0x80 + w) # rest)
         = (((x * 64 + y) * 64 + z) * 64 + w) # utf8_decoder 0 0 0 0x80 0xBF rest"
      using lt by (intro decode_four)
    have "cp div 0x40 mod 0x40 = z" "cp div 0x1000 mod 0x40 = y"
      by (simp_all add: d1 d2 z_def y_def)
    then have bytes: "utf8_bytes cp =
        [word_of_nat (0xF0 + x), word_of_nat (0x80 + y), word_of_nat (0x80 + z), word_of_nat (0x80 + w)]"
      using 4 by (simp add: utf8_bytes_def d3 m1 del: of_nat_add)
    show ?thesis
      by (simp only: bytes append_Cons append_Nil dec b [symmetric] a [symmetric] cp [symmetric])
  qed
qed

lemma decode_concat:
  "list_all is_scalar cps \<Longrightarrow> utf8_decoder 0 0 0 0x80 0xBF (concat (map utf8_bytes cps)) = cps"
  by (induction cps) (simp_all add: utf8_decoder.simps(1) decode_utf8_bytes)

lemma is_lead_unat: "is_lead c \<longleftrightarrow> 0xD800 \<le> unat c \<and> unat c \<le> 0xDBFF"
  by (simp add: is_lead_def word_le_nat_alt)

lemma is_trail_unat: "is_trail c \<longleftrightarrow> 0xDC00 \<le> unat c \<and> unat c \<le> 0xDFFF"
  by (simp add: is_trail_def word_le_nat_alt)

lemma unat_unit_less: "unat (c :: code_unit) < 0x10000"
  using unsigned_less [of c] by simp

lemma is_scalar_unit: "\<not> is_lead c \<Longrightarrow> \<not> is_trail c \<Longrightarrow> is_scalar (unat c)"
  using unat_unit_less [of c] unfolding is_lead_unat is_trail_unat is_scalar_def by linarith

lemma is_scalar_pair:
  "is_lead c \<Longrightarrow> is_trail d \<Longrightarrow> is_scalar (0x10000 + (unat c - 0xD800) * 0x400 + (unat d - 0xDC00))"
  unfolding is_lead_unat is_trail_unat is_scalar_def by linarith

lemma is_scalar_replacement: "is_scalar 0xFFFD"
  by (simp add: is_scalar_def)

lemma scalar_values_scalar: "list_all is_scalar (scalar_values s)"
  by (induction s rule: scalar_values.induct)
     (simp_all add: is_scalar_unit is_scalar_pair is_scalar_replacement)

lemma decode_encode_general:
  "TextDecoder_decode (TextEncoder_encode s) = concat (map utf16_units (strip_bom (scalar_values s)))"
  by (simp add: TextDecoder_decode_def TextEncoder_encode_def decode_concat scalar_values_scalar)

lemma utf16_units_unit: "utf16_units (unat c) = [c]"
  using unat_unit_less [of c] by (simp add: utf16_units_def)

lemma utf16_units_pair:
  assumes "is_lead c" "is_trail d"
  shows "utf16_units (0x10000 + (unat c - 0xD800) * 0x400 + (unat d - 0xDC00)) = [c, d]"
proof -
  define h where "h = unat c - 0xD800"
  define l where "l = unat d - 0xDC00"
  from assms have c: "unat c = 0xD800 + h" and d: "unat d = 0xDC00 + l" and l: "l < 0x400"
    unfolding is_lead_unat is_trail_unat h_def l_def by linarith+
  have "(h * 0x400 + l) div 0x400 = h" "(h * 0x400 + l) mod 0x400 = l"
    using l by simp_all
  then have "utf16_units (0x10000 + h * 0x400 + l) = [word_of_nat (unat c), word_of_nat (unat d)]"
    by (simp add: utf16_units_def c d del: of_nat_add of_nat_unat)
  then show ?thesis
    by (simp add: h_def l_def)
qed

lemma encode_utf16_well_formed:
  "well_formed s \<Longrightarrow> concat (map utf16_units (scalar_values s)) = s"
  by (induction s rule: scalar_values.induct)
     (simp_all add: utf16_units_unit utf16_units_pair split: if_splits)

lemma scalar_values_no_bom:
  assumes "well_formed s" "s = [] \<or> hd s \<noteq> 0xFEFF"
  shows "strip_bom (scalar_values s) = scalar_values s"
proof (cases s rule: scalar_values.cases)
  case 1
  then show ?thesis by (simp add: strip_bom_def)
next
  case (2 c)
  with assms have "unat c \<noteq> 0xFEFF"
    by (auto simp: word_unat_eq_iff)
  with 2 assms show ?thesis by (simp add: strip_bom_def)
next
  case (3 c d cs)
  with assms have "unat c \<noteq> 0xFEFF"
    by (auto simp: word_unat_eq_iff)
  with 3 assms show ?thesis
    by (simp add: strip_bom_def)
qed

lemma decode_encode_well_formed:
  assumes "well_formed s" "s = [] \<or> hd s \<noteq> 0xFEFF"
  shows "TextDecoder_decode (TextEncoder_encode s) = s"
  by (simp add: decode_encode_general scalar_values_no_bom [OF assms] encode_utf16_well_formed [OF assms(1)])

section \<open>The XOR transform and the pipeline around it\<close>

lemma xorEncryptDecrypt_length: "length (xorEncryptDecrypt data key) = length data"
  by (simp add: xorEncryptDecrypt_def)

lemma xorEncryptDecrypt_nth:
  "i < length data \<Longrightarrow> xorEncryptDecrypt data key ! i = data ! i XOR key_at key i"
  by (simp add: xorEncryptDecrypt_def nth_enumerate_eq)

lemma xorEncryptDecrypt_twice: "xorEncryptDecrypt (xorEncryptDecrypt data key) key = data"
proof (rule nth_equalityI)
  show "length (xorEncryptDecrypt (xorEncryptDecrypt data key) key) = length data"
    by (simp add: xorEncryptDecrypt_length)
next
  fix i
  assume "i < length (xorEncryptDecrypt (xorEncryptDecrypt data key) key)"
  then have i: "i < length data"
    by (simp add: xorEncryptDecrypt_length)
  then show "xorEncryptDecrypt (xorEncryptDecrypt data key) key ! i = data ! i"
    by (simp add: xorEncryptDecrypt_nth xorEncryptDecrypt_length xor.assoc)
qed

lemma xorEncryptDecrypt_empty_key: "xorEncryptDecrypt data [] = data"
  by (rule nth_equalityI) (simp_all add: xorEncryptDecrypt_length xorEncryptDecrypt_nth key_at_def)

lemma inline_xor: "map (\<lambda>(i, b). b XOR key_at key i) (enumerate 0 bytes) = xorEncryptDecrypt bytes key"
  by (simp add: xorEncryptDecrypt_def)

lemma not_surrogate_byte: "\<not> is_lead (ucast (b :: byte))" "\<not> is_trail (ucast (b :: byte))"
  using unat_byte_less [of b] by (simp_all add: is_lead_unat is_trail_unat unat_ucast_byte)

lemma spread_bytes: "spread_charCodes (map ucast (bs :: byte list)) = map ucast bs"
  by (induction bs rule: induct_list012) (simp_all add: not_surrogate_byte)

lemma ucast_xor_byte:
  "(ucast ((ucast (b :: byte) :: code_unit) XOR ucast (k :: byte)) :: byte) = b XOR k"
  by (rule bit_word_eqI) (auto simp add: bit_simps)

lemma number_xor:
  "map ucast (map (\<lambda>(i, b). b XOR ucast (key_at key i)) (enumerate 0 (map ucast bs :: js_string)))
   = xorEncryptDecrypt bs key"
proof (rule nth_equalityI)
  show "length (map ucast (map (\<lambda>(i, b). b XOR ucast (key_at key i)) (enumerate 0 (map ucast bs :: js_string))))
        = length (xorEncryptDecrypt bs key)"
    by (simp add: xorEncryptDecrypt_length)
next
  fix i
  assume "i < length (map ucast (map (\<lambda>(i, b). b XOR ucast (key_at key i)) (enumerate 0 (map ucast bs :: js_string))))"
  then have "i < length bs"
    by simp
  then show "map ucast (map (\<lambda>(i, b). b XOR ucast (key_at key i)) (enumerate 0 (map ucast bs :: js_string))) ! i
        = xorEncryptDecrypt bs key ! i"
    by (simp add: xorEncryptDecrypt_nth nth_enumerate_eq ucast_xor_byte)
qed

lemma number_xor_comp:
  "map (ucast \<circ> (\<lambda>(i, b). b XOR ucast (key_at key i))) (enumerate 0 (map ucast bs :: js_string))
   = xorEncryptDecrypt bs key"
  using number_xor [of key bs] by simp

lemma xorEncryptDecrypt_nonempty: "data \<noteq> [] \<Longrightarrow> xorEncryptDecrypt data key \<noteq> []"
  using xorEncryptDecrypt_length [of data key] by (cases "xorEncryptDecrypt data key") simp_all

lemma derive_async: "deriveKeyFromPassword_async pw = Inr (sha256 (TextEncoder_encode pw))"
  by (simp add: deriveKeyFromPassword_async_def subtle_digest_SHA256_def)

lemma derive_bytes: "deriveKeyBytes pw = Inr (sha256 (TextEncoder_encode pw))"
  by (simp add: deriveKeyBytes_def subtle_digest_SHA256_def)

lemma handleDecrypt_try_encoded:
  "handleDecrypt_try (b64_encode (xorEncryptDecrypt bytes (sha256 (TextEncoder_encode pw)))) pw
   = Inr (TextDecoder_decode bytes)"
  by (simp add: handleDecrypt_try_def derive_async atob_b64_encode spread_bytes number_xor_comp
      xorEncryptDecrypt_twice)

lemma handleEncrypt_base64_short:
  assumes "length (TextEncoder_encode m) \<le> max_args"
  shows "handleEncrypt_base64 max_args m pw =
     Inr (b64_encode (xorEncryptDecrypt (TextEncoder_encode m) (sha256 (TextEncoder_encode pw))))"
  using assms
  by (simp add: handleEncrypt_base64_def derive_async inline_xor Let_def xorEncryptDecrypt_length
      fromCharCode_def btoa_bytes)

lemma handleEncrypt_base64_long:
  assumes "max_args < length (TextEncoder_encode m)"
  shows "handleEncrypt_base64 max_args m pw = Inl RangeError"
  using assms
  by (simp add: handleEncrypt_base64_def derive_async inline_xor Let_def xorEncryptDecrypt_length
      fromCharCode_def)

lemma utf8_bytes_length: "1 \<le> length (utf8_bytes cp)"
  by (simp add: utf8_bytes_def)

lemma utf8_bytes_pair: "length (utf8_bytes (0x10000 + x)) = 4"
  by (simp add: utf8_bytes_def)

lemma scalar_values_length:
  "length s \<le> length (concat (map utf8_bytes (scalar_values s)))"
proof (induction s rule: scalar_values.induct)
  case 1
  then show ?case by simp
next
  case (2 c)
  then show ?case
    using utf8_bytes_length [of "0xFFFD"] utf8_bytes_length [of "unat c"] by simp
next
  case (3 c d cs)
  then show ?case
    using utf8_bytes_length [of "0xFFFD"] utf8_bytes_length [of "unat c"]
      utf8_bytes_pair [of "(unat c - 0xD800) * 0x400 + (unat d - 0xDC00)"]
    by (cases "is_lead c") (auto simp add: add.assoc)
qed

lemma encode_length_ge: "length s \<le> length (TextEncoder_encode s)"
  by (simp add: TextEncoder_encode_def scalar_values_length)

lemma utf8_bytes_nonempty: "utf8_bytes cp \<noteq> []"
  by (simp add: utf8_bytes_def)

lemma scalar_values_nonempty: "s \<noteq> [] \<Longrightarrow> scalar_values s \<noteq> []"
  by (cases s rule: scalar_values.cases) simp_all

lemma TextEncoder_encode_nonempty: "s \<noteq> [] \<Longrightarrow> TextEncoder_encode s \<noteq> []"
  using scalar_values_nonempty [of s]
  by (cases "scalar_values s") (simp_all add: TextEncoder_encode_def utf8_bytes_nonempty)

lemma b64_encode_nonempty: "bs \<noteq> [] \<Longrightarrow> b64_encode bs \<noteq> []"
  by (cases bs rule: b64_sextets.cases) (simp_all add: b64_encode_def)

lemma handleEncrypt_stores:
  assumes "st_text s \<noteq> []" "st_password s \<noteq> []" "st_sender s \<noteq> []"
    and "handleEncrypt_base64 max_args (st_text s) (st_password s) = Inr c"
  shows "handleEncrypt max_args now s =
    Inr (s\<lparr>st_result := c,
          messages := messages s @
            [\<lparr>sender = st_sender s, password = [], text' = c, mode = encrypt, timestamp = now\<rparr>],
          st_text := []\<rparr>)"
  using assms by (simp add: handleEncrypt_def)

lemma handleDecrypt_shows:
  assumes "enc \<noteq> []" "pw \<noteq> []" and "handleDecrypt_try enc pw = Inr m"
  shows "handleDecrypt (t\<lparr>st_text := enc, st_password := pw\<rparr>)
         = t\<lparr>st_text := enc, st_password := pw, st_result := m\<rparr>"
  using assms by (simp add: handleDecrypt_def)

text \<open>
  C2. For every byte sequence and every key of length at least 1, the transform returns a
  sequence of the same length as the data, and byte \<open>i\<close> of the output is
  \<open>data[i] XOR key[i mod len(key)]\<close> at every index \<open>i\<close>.
\<close>

theorem C2_xor_length_and_bytes:
  assumes "1 \<le> length key"
  shows "length (xorEncryptDecrypt data key) = length data \<and>
         (\<forall>i < length data. xorEncryptDecrypt data key ! i = data ! i XOR key ! (i mod length key))"
proof -
  from assms have "length key \<noteq> 0"
    by (cases key) simp_all
  then show ?thesis
    by (simp add: xorEncryptDecrypt_length xorEncryptDecrypt_nth key_at_def)
qed

text \<open>Three bytes under a key of two bytes: the third byte meets the first key byte again.\<close>

theorem C2_xor_length_and_bytes_witness:
  "1 \<le> length [0x0F, 0xF0 :: byte] \<and>
   length (xorEncryptDecrypt [1, 2, 3] [0x0F, 0xF0]) = length [1, 2, 3 :: byte] \<and>
   xorEncryptDecrypt [1, 2, 3] [0x0F, 0xF0] = [0x0E, 0xF2, 0x0C]"
proof -
  have k: "1 \<le> length [0x0F, 0xF0 :: byte]"
    by simp
  have len: "length (xorEncryptDecrypt [1, 2, 3] [0x0F, 0xF0]) = length [1, 2, 3 :: byte]"
    using C2_xor_length_and_bytes [OF k, of "[1, 2, 3]"] by blast
  have "xorEncryptDecrypt [1, 2, 3] [0x0F, 0xF0] = [0x0E, 0xF2, 0x0C]"
    by (simp add: xorEncryptDecrypt_def key_at_def)
  with k len show ?thesis
    by blast
qed

text \<open>
  C3. The transform is an involution: for every byte sequence and every key of length at
  least 1, applying it twice with the same key gives the data back, so the one function
  both encrypts and decrypts.
\<close>

theorem C3_xor_involution:
  assumes "1 \<le> length key"
  shows "xorEncryptDecrypt (xorEncryptDecrypt data key) key = data"
  by (rule xorEncryptDecrypt_twice)

text \<open>The bytes of "hi!" under a key of two bytes.\<close>

theorem C3_xor_involution_witness:
  "1 \<le> length [0xBA, 0x78 :: byte] \<and>
   xorEncryptDecrypt (xorEncryptDecrypt [0x68, 0x69, 0x21] [0xBA, 0x78]) [0xBA, 0x78] = [0x68, 0x69, 0x21]"
proof -
  have k: "1 \<le> length [0xBA, 0x78 :: byte]"
    by simp
  from k C3_xor_involution [OF k, of "[0x68, 0x69, 0x21]"] show ?thesis
    by blast
qed

text \<open>
  C6, as the code has it. The specification asks for an InvalidKey failure on a key of
  length 0.
  The function has no check of the key's length and no failure path: with an empty key
  every byte is XOR-ed with 0 (the value \<^verbatim>\<open>undefined\<close> takes in \<^verbatim>\<open>^\<close>), so for every
  byte sequence the transform returns the data unchanged.
\<close>

theorem C6_empty_key_returns_data: "xorEncryptDecrypt data [] = data"
  by (rule xorEncryptDecrypt_empty_key)

text \<open>The bytes of "hi" under the empty key: a result, and no failure.\<close>

theorem C6_empty_key_counterexample: "xorEncryptDecrypt [0x68, 0x69] [] = [0x68, 0x69]"
  by (simp add: xorEncryptDecrypt_def key_at_def)


section \<open>The derived keys and the round trip\<close>

text \<open>The test vector of FIPS 180-4 for the message "abc".\<close>

lemma sha256_abc:
  "sha256 [0x61, 0x62, 0x63] =
    [0xba, 0x78, 0x16, 0xbf, 0x8f, 0x01, 0xcf, 0xea, 0x41, 0x41, 0x40, 0xde, 0x5d, 0xae, 0x22, 0x23,
     0xb0, 0x03, 0x61, 0xa3, 0x96, 0x17, 0x7a, 0x9c, 0xb4, 0x10, 0xff, 0x61, 0xf2, 0x00, 0x15, 0xad]"
  by code_simp

text \<open>The digest of the empty message, as its eight words.\<close>

lemma sha256_empty:
  "sha256 [] =
    concat (map be_bytes32 [0xe3b0c442, 0x98fc1c14, 0x9afbf4c8, 0x996fb924,
                            0x27ae41e4, 0x649b934c, 0xa495991b, 0x7852b855])"
  by code_simp

text \<open>
  The digest of the nine bytes \<open>C3 A9 E2 82 AC F0 9F 98 80\<close>, the UTF-8 encoding of the
  three characters U+00E9, U+20AC and U+1F600.
\<close>

lemma sha256_unicode:
  "sha256 [0xC3, 0xA9, 0xE2, 0x82, 0xAC, 0xF0, 0x9F, 0x98, 0x80] =
    concat (map be_bytes32 [0xdf922692, 0x7fd572c1, 0xee66eec8, 0x5de1bb13,
                            0x94976148, 0x99f36e4e, 0x90474cb7, 0x1f6ef9d0])"
  by code_simp

text \<open>
  The second test vector of FIPS 180-4: a message of 56 bytes, which the padding extends
  to two blocks.
\<close>

lemma sha256_two_blocks:
  "sha256 (map ucast (js ''abcdbcdecdefdefgefghfghighijhijkijkljklmklmnlmnomnopnopq'')) =
    concat (map be_bytes32 [0x248d6a61, 0xd20638b8, 0xe5c02693, 0x0c3e6039,
                            0xa33ce459, 0x64ff2167, 0xf6ecedd4, 0x19db06c1])"
  by code_simp

lemma encode_abc: "TextEncoder_encode (js ''abc'') = [0x61, 0x62, 0x63]"
  by code_simp

lemma encode_unicode:
  "TextEncoder_encode [0xE9, 0x20AC, 0xD83D, 0xDE00] = [0xC3, 0xA9, 0xE2, 0x82, 0xAC, 0xF0, 0x9F, 0x98, 0x80]"
  by (simp add: TextEncoder_encode_def is_lead_def is_trail_def utf8_bytes_def)

text \<open>A string of code units below \<open>0x80\<close> is encoded unit by unit.\<close>

lemma encode_ascii: "list_all (\<lambda>c. c < 0x80) s \<Longrightarrow> TextEncoder_encode s = map ucast s"
proof (induction s rule: scalar_values.induct)
  case 1
  then show ?case by (simp add: TextEncoder_encode_def)
next
  case (2 c)
  then have "unat c < 0x80"
    by (simp add: word_less_nat_alt)
  then show ?case
    by (simp add: TextEncoder_encode_def is_lead_unat is_trail_unat utf8_bytes_def)
next
  case (3 c d cs)
  then have c: "unat c < 0x80"
    by (simp add: word_less_nat_alt)
  from 3 have "TextEncoder_encode (d # cs) = map ucast (d # cs)"
    using c by (simp add: is_lead_unat is_trail_unat)
  with c show ?case
    by (simp add: TextEncoder_encode_def is_lead_unat is_trail_unat utf8_bytes_def)
qed

lemma encode_two_blocks:
  "TextEncoder_encode (js ''abcdbcdecdefdefgefghfghighijhijkijkljklmklmnlmnomnopnopq'')
   = map ucast (js ''abcdbcdecdefdefgefghfghighijhijkijkljklmklmnlmnomnopnopq'')"
  by (rule encode_ascii) (simp add: js_def)

lemma key_abc:
  "sha256 (TextEncoder_encode (js ''abc'')) =
    [0xba, 0x78, 0x16, 0xbf, 0x8f, 0x01, 0xcf, 0xea, 0x41, 0x41, 0x40, 0xde, 0x5d, 0xae, 0x22, 0x23,
     0xb0, 0x03, 0x61, 0xa3, 0x96, 0x17, 0x7a, 0x9c, 0xb4, 0x10, 0xff, 0x61, 0xf2, 0x00, 0x15, 0xad]"
  by (simp add: encode_abc sha256_abc)

lemma sha256_length: "length (sha256 msg) = 32"
proof -
  have "length (digest_bytes st) = 32" for st
    by (cases st rule: digest_bytes.cases) (simp add: be_bytes32_def)
  then show ?thesis
    by (simp add: sha256_def Let_def)
qed

lemma well_formed_unicode: "well_formed [0xE9, 0x20AC, 0xD83D, 0xDE00]"
  by (simp add: is_lead_def is_trail_def)

text \<open>
  C4. The key derivation returns exactly 32 bytes, the SHA-256 digest of the UTF-8 encoding
  of the password, for every string, the empty one included, and it never fails: for
  every password the promise of \<^verbatim>\<open>deriveKeyBytes\<close>, and of the inline
  \<^verbatim>\<open>deriveKeyFromPassword\<close>, is fulfilled (\<open>Inr\<close>), never rejected.
  The bytes that are hashed are UTF-8: the UTF-8 decoder reads them back, without an
  error, as the code points of the password, and as the password itself when it is
  well-formed UTF-16. The digest is SHA-256: the keys of the empty password, of "abc", of
  a password of three non-ASCII characters (of 2, 3 and 4 bytes in UTF-8) and of the
  56-character message of FIPS 180-4 (two blocks) are the digests of the standard.
\<close>

theorem C4_derived_key_is_sha256_digest:
  "(\<exists>key. deriveKeyBytes pw = Inr key \<and> deriveKeyFromPassword_async pw = Inr key \<and>
          length key = 32 \<and> key = sha256 (TextEncoder_encode pw)) \<and>
   utf8_decoder 0 0 0 0x80 0xBF (TextEncoder_encode pw) = scalar_values pw \<and>
   (well_formed pw \<longrightarrow>
      concat (map utf16_units (utf8_decoder 0 0 0 0x80 0xBF (TextEncoder_encode pw))) = pw) \<and>
   deriveKeyBytes [] =
     Inr (concat (map be_bytes32 [0xe3b0c442, 0x98fc1c14, 0x9afbf4c8, 0x996fb924,
                                  0x27ae41e4, 0x649b934c, 0xa495991b, 0x7852b855])) \<and>
   deriveKeyBytes (js ''abc'') =
     Inr [0xba, 0x78, 0x16, 0xbf, 0x8f, 0x01, 0xcf, 0xea, 0x41, 0x41, 0x40, 0xde, 0x5d, 0xae, 0x22, 0x23,
          0xb0, 0x03, 0x61, 0xa3, 0x96, 0x17, 0x7a, 0x9c, 0xb4, 0x10, 0xff, 0x61, 0xf2, 0x00, 0x15, 0xad] \<and>
   deriveKeyBytes [0xE9, 0x20AC, 0xD83D, 0xDE00] =
     Inr (concat (map be_bytes32 [0xdf922692, 0x7fd572c1, 0xee66eec8, 0x5de1bb13,
                                  0x94976148, 0x99f36e4e, 0x90474cb7, 0x1f6ef9d0])) \<and>
   deriveKeyBytes (js ''abcdbcdecdefdefgefghfghighijhijkijkljklmklmnlmnomnopnopq'') =
     Inr (concat (map be_bytes32 [0x248d6a61, 0xd20638b8, 0xe5c02693, 0x0c3e6039,
                                  0xa33ce459, 0x64ff2167, 0xf6ecedd4, 0x19db06c1]))"
proof -
  have key: "\<exists>key. deriveKeyBytes pw = Inr key \<and> deriveKeyFromPassword_async pw = Inr key \<and>
          length key = 32 \<and> key = sha256 (TextEncoder_encode pw)"
    by (simp add: derive_bytes derive_async sha256_length)
  have utf8: "utf8_decoder 0 0 0 0x80 0xBF (TextEncoder_encode pw) = scalar_values pw"
    by (simp add: TextEncoder_encode_def decode_concat scalar_values_scalar)
  then have utf16: "well_formed pw \<longrightarrow>
      concat (map utf16_units (utf8_decoder 0 0 0 0x80 0xBF (TextEncoder_encode pw))) = pw"
    by (simp add: encode_utf16_well_formed)
  have "TextEncoder_encode [] = []"
    by (simp add: TextEncoder_encode_def)
  then have empty: "deriveKeyBytes [] =
     Inr (concat (map be_bytes32 [0xe3b0c442, 0x98fc1c14, 0x9afbf4c8, 0x996fb924,
                                  0x27ae41e4, 0x649b934c, 0xa495991b, 0x7852b855]))"
    by (simp add: derive_bytes sha256_empty)
  have abc: "deriveKeyBytes (js ''abc'') =
     Inr [0xba, 0x78, 0x16, 0xbf, 0x8f, 0x01, 0xcf, 0xea, 0x41, 0x41, 0x40, 0xde, 0x5d, 0xae, 0x22, 0x23,
          0xb0, 0x03, 0x61, 0xa3, 0x96, 0x17, 0x7a, 0x9c, 0xb4, 0x10, 0xff, 0x61, 0xf2, 0x00, 0x15, 0xad]"
    by (simp add: derive_bytes key_abc)
  have unicode: "deriveKeyBytes [0xE9, 0x20AC, 0xD83D, 0xDE00] =
     Inr (concat (map be_bytes32 [0xdf922692, 0x7fd572c1, 0xee66eec8, 0x5de1bb13,
                                  0x94976148, 0x99f36e4e, 0x90474cb7, 0x1f6ef9d0]))"
    by (simp only: derive_bytes encode_unicode sha256_unicode)
  have two: "deriveKeyBytes (js ''abcdbcdecdefdefgefghfghighijhijkijkljklmklmnlmnomnopnopq'') =
     Inr (concat (map be_bytes32 [0x248d6a61, 0xd20638b8, 0xe5c02693, 0x0c3e6039,
                                  0xa33ce459, 0x64ff2167, 0xf6ecedd4, 0x19db06c1]))"
    by (simp only: derive_bytes encode_two_blocks sha256_two_blocks)
  from key utf8 utf16 empty abc unicode two show ?thesis
    by blast
qed

text \<open>
  The password of the three characters U+00E9, U+20AC and U+1F600 (four code units): it is
  well-formed, and the bytes hashed for it decode to it.
\<close>

theorem C4_derived_key_is_sha256_digest_witness:
  "well_formed [0xE9, 0x20AC, 0xD83D, 0xDE00] \<and>
   concat (map utf16_units (utf8_decoder 0 0 0 0x80 0xBF
       (TextEncoder_encode [0xE9, 0x20AC, 0xD83D, 0xDE00]))) = [0xE9, 0x20AC, 0xD83D, 0xDE00] \<and>
   TextEncoder_encode [0xE9, 0x20AC, 0xD83D, 0xDE00] = [0xC3, 0xA9, 0xE2, 0x82, 0xAC, 0xF0, 0x9F, 0x98, 0x80]"
  using C4_derived_key_is_sha256_digest [of "[0xE9, 0x20AC, 0xD83D, 0xDE00]"]
    well_formed_unicode encode_unicode
  by blast

lemma xor_hi: "xorEncryptDecrypt [0x68, 0x69] (sha256 (TextEncoder_encode (js ''abc''))) = [0xD2, 0x11]"
  by (simp add: key_abc xorEncryptDecrypt_def key_at_def)

lemma b64_d211: "b64_encode [0xD2, 0x11] = js ''0hE=''"
  by code_simp

lemma encode_hi: "TextEncoder_encode (js ''hi'') = [0x68, 0x69]"
  by code_simp

text \<open>The message "hi" under the password "abc": the ciphertext is \<^verbatim>\<open>0hE=\<close>.\<close>

lemma encrypt_hi_abc: "2 \<le> max_args \<Longrightarrow> handleEncrypt_base64 max_args (js ''hi'') (js ''abc'') = Inr (js ''0hE='')"
  by (simp add: handleEncrypt_base64_short encode_hi xor_hi b64_d211)

lemma encrypt_empty: "handleEncrypt_base64 max_args [] pw = Inr []"
proof -
  have "TextEncoder_encode [] = []"
    by (simp add: TextEncoder_encode_def)
  then show ?thesis
    by (simp add: handleEncrypt_base64_short xorEncryptDecrypt_def b64_encode_def)
qed

text \<open>
  C1, as the code has it. Encryption is the lines of \<^verbatim>\<open>handleEncrypt\<close> that compute the
  ciphertext, decryption is the \<^verbatim>\<open>try\<close> block of \<^verbatim>\<open>handleDecrypt\<close>. For every password,
  the empty one included, and every plaintext, the empty one included, that is well-formed
  UTF-16, does not start with U+FEFF and whose UTF-8 encoding has no more bytes than the
  engine accepts arguments in one call, encryption returns a ciphertext and decryption of
  that ciphertext under the same password returns the plaintext. When the plaintext, the
  password and the sender are not empty, \<^verbatim>\<open>handleEncrypt\<close> shows and stores that ciphertext
  and \<^verbatim>\<open>handleDecrypt\<close> on it shows the plaintext.
\<close>

theorem C1_roundtrip_well_formed:
  assumes "well_formed m" and "m = [] \<or> hd m \<noteq> 0xFEFF"
    and "length (TextEncoder_encode m) \<le> max_args"
  shows "\<exists>c. handleEncrypt_base64 max_args m p = Inr c \<and>
           handleDecrypt_try c p = Inr m \<and>
           (m \<noteq> [] \<and> p \<noteq> [] \<and> st_sender s \<noteq> [] \<and> st_text s = m \<and> st_password s = p \<longrightarrow>
              handleEncrypt max_args now s =
                Inr (s\<lparr>st_result := c,
                       messages := messages s @
                         [\<lparr>sender = st_sender s, password = [], text' = c,
                           mode = encrypt, timestamp = now\<rparr>],
                       st_text := []\<rparr>) \<and>
              handleDecrypt (t\<lparr>st_text := c, st_password := p\<rparr>)
                = t\<lparr>st_text := c, st_password := p, st_result := m\<rparr>)"
proof -
  let ?c = "b64_encode (xorEncryptDecrypt (TextEncoder_encode m) (sha256 (TextEncoder_encode p)))"
  have enc: "handleEncrypt_base64 max_args m p = Inr ?c"
    by (rule handleEncrypt_base64_short [OF assms(3)])
  have dec: "handleDecrypt_try ?c p = Inr m"
    by (simp add: handleDecrypt_try_encoded decode_encode_well_formed [OF assms(1,2)])
  have handlers: "handleEncrypt max_args now s =
                Inr (s\<lparr>st_result := ?c,
                       messages := messages s @
                         [\<lparr>sender = st_sender s, password = [], text' = ?c,
                           mode = encrypt, timestamp = now\<rparr>],
                       st_text := []\<rparr>) \<and>
              handleDecrypt (t\<lparr>st_text := ?c, st_password := p\<rparr>)
                = t\<lparr>st_text := ?c, st_password := p, st_result := m\<rparr>"
    if guard: "m \<noteq> [] \<and> p \<noteq> [] \<and> st_sender s \<noteq> [] \<and> st_text s = m \<and> st_password s = p"
  proof -
    from guard have "?c \<noteq> []"
      by (intro b64_encode_nonempty xorEncryptDecrypt_nonempty TextEncoder_encode_nonempty) simp
    with guard dec have "handleDecrypt (t\<lparr>st_text := ?c, st_password := p\<rparr>)
                = t\<lparr>st_text := ?c, st_password := p, st_result := m\<rparr>"
      by (intro handleDecrypt_shows) simp_all
    moreover from guard enc have "handleEncrypt max_args now s =
                Inr (s\<lparr>st_result := ?c,
                       messages := messages s @
                         [\<lparr>sender = st_sender s, password = [], text' = ?c,
                           mode = encrypt, timestamp = now\<rparr>],
                       st_text := []\<rparr>)"
      by (intro handleEncrypt_stores) simp_all
    ultimately show ?thesis
      by blast
  qed
  from enc dec handlers show ?thesis
    by blast
qed

text \<open>
  The plaintext "hi" under the password "abc", sender "bob", in an engine that accepts
  65536 arguments: the ciphertext is \<^verbatim>\<open>0hE=\<close>. The empty plaintext under the empty
  password. The plaintext U+1F600 (a surrogate pair, four bytes of UTF-8) under the
  password of the characters U+00E9, U+20AC and U+1F600.
\<close>

theorem C1_roundtrip_well_formed_witness:
  "well_formed (js ''hi'') \<and> hd (js ''hi'') \<noteq> 0xFEFF \<and>
   length (TextEncoder_encode (js ''hi'')) \<le> 65536 \<and>
   handleEncrypt_base64 65536 (js ''hi'') (js ''abc'') = Inr (js ''0hE='') \<and>
   handleDecrypt_try (js ''0hE='') (js ''abc'') = Inr (js ''hi'') \<and>
   handleEncrypt 65536 7 (example_state (js ''hi'') (js ''abc'') encrypt) =
     Inr ((example_state [] (js ''abc'') encrypt)
          \<lparr>st_result := js ''0hE='',
            messages := [\<lparr>sender = js ''bob'', password = [], text' = js ''0hE='',
                          mode = encrypt, timestamp = 7\<rparr>]\<rparr>) \<and>
   handleDecrypt (example_state (js ''0hE='') (js ''abc'') decrypt)
     = (example_state (js ''0hE='') (js ''abc'') decrypt)\<lparr>st_result := js ''hi''\<rparr> \<and>
   well_formed [] \<and> length (TextEncoder_encode []) \<le> 65536 \<and>
   handleEncrypt_base64 65536 [] [] = Inr [] \<and>
   handleDecrypt_try [] [] = Inr [] \<and>
   well_formed [0xD83D, 0xDE00] \<and> hd [0xD83D, 0xDE00 :: code_unit] \<noteq> 0xFEFF \<and>
   length (TextEncoder_encode [0xD83D, 0xDE00]) \<le> 65536 \<and>
   (\<exists>c. handleEncrypt_base64 65536 [0xD83D, 0xDE00] [0xE9, 0x20AC, 0xD83D, 0xDE00] = Inr c \<and>
        handleDecrypt_try c [0xE9, 0x20AC, 0xD83D, 0xDE00] = Inr [0xD83D, 0xDE00])"
proof -
  let ?s = "example_state (js ''hi'') (js ''abc'') encrypt"
  have h: "well_formed (js ''hi'')" "js ''hi'' = [] \<or> hd (js ''hi'') \<noteq> 0xFEFF"
    "length (TextEncoder_encode (js ''hi'')) \<le> 65536"
    by (simp_all add: encode_hi) (simp_all add: js_def is_lead_def is_trail_def)
  have g: "js ''hi'' \<noteq> [] \<and> js ''abc'' \<noteq> [] \<and> st_sender ?s \<noteq> [] \<and> st_text ?s = js ''hi'' \<and>
           st_password ?s = js ''abc''"
    by (simp add: example_state_def js_def)
  have c: "handleEncrypt_base64 65536 (js ''hi'') (js ''abc'') = Inr (js ''0hE='')"
    by (simp add: encrypt_hi_abc)
  from C1_roundtrip_well_formed [OF h, of "js ''abc''" ?s 7 "example_state [] [] decrypt"] c g
  have hi: "handleDecrypt_try (js ''0hE='') (js ''abc'') = Inr (js ''hi'') \<and>
      handleEncrypt 65536 7 ?s =
         Inr (?s\<lparr>st_result := js ''0hE='',
                 messages := messages ?s @
                   [\<lparr>sender = st_sender ?s, password = [], text' = js ''0hE='',
                     mode = encrypt, timestamp = 7\<rparr>],
                 st_text := []\<rparr>) \<and>
      handleDecrypt ((example_state [] [] decrypt)\<lparr>st_text := js ''0hE='', st_password := js ''abc''\<rparr>)
        = (example_state [] [] decrypt)\<lparr>st_text := js ''0hE='', st_password := js ''abc'',
             st_result := js ''hi''\<rparr>"
    by auto
  have e: "well_formed []" "[] = [] \<or> hd [] \<noteq> (0xFEFF :: code_unit)"
    "length (TextEncoder_encode []) \<le> 65536"
    by (simp_all add: TextEncoder_encode_def)
  have ce: "handleEncrypt_base64 65536 [] [] = Inr []"
    by (rule encrypt_empty)
  from C1_roundtrip_well_formed [OF e, of "[]" ?s 7 "example_state [] [] decrypt"] ce
  have empty: "handleDecrypt_try [] [] = Inr []"
    by auto
  have u: "well_formed [0xD83D, 0xDE00]"
    "[0xD83D, 0xDE00] = [] \<or> hd [0xD83D, 0xDE00 :: code_unit] \<noteq> 0xFEFF"
    "length (TextEncoder_encode [0xD83D, 0xDE00]) \<le> 65536"
    by (simp_all add: TextEncoder_encode_def is_lead_def is_trail_def utf8_bytes_def)
  from C1_roundtrip_well_formed [OF u, of "[0xE9, 0x20AC, 0xD83D, 0xDE00]" ?s 7 "example_state [] [] decrypt"]
  have unicode: "\<exists>c. handleEncrypt_base64 65536 [0xD83D, 0xDE00] [0xE9, 0x20AC, 0xD83D, 0xDE00] = Inr c \<and>
        handleDecrypt_try c [0xE9, 0x20AC, 0xD83D, 0xDE00] = Inr [0xD83D, 0xDE00]"
    by blast
  from hi have hi': "handleDecrypt_try (js ''0hE='') (js ''abc'') = Inr (js ''hi'')"
    "handleEncrypt 65536 7 ?s =
     Inr ((example_state [] (js ''abc'') encrypt)
          \<lparr>st_result := js ''0hE='',
            messages := [\<lparr>sender = js ''bob'', password = [], text' = js ''0hE='',
                          mode = encrypt, timestamp = 7\<rparr>]\<rparr>)"
    "handleDecrypt (example_state (js ''0hE='') (js ''abc'') decrypt)
     = (example_state (js ''0hE='') (js ''abc'') decrypt)\<lparr>st_result := js ''hi''\<rparr>"
    by (simp_all add: example_state_def)
  have "hd (js ''hi'') \<noteq> 0xFEFF" "hd [0xD83D, 0xDE00 :: code_unit] \<noteq> 0xFEFF"
    by (simp_all add: js_def)
  with h(1,3) c hi' e(1,3) ce empty u(1,3) unicode show ?thesis
    by blast
qed

text \<open>Plaintexts that do not come back, all under the password "abc".\<close>

lemma xor_replacement:
  "xorEncryptDecrypt [0xEF, 0xBF, 0xBD] (sha256 (TextEncoder_encode (js ''abc''))) = [0x55, 0xC7, 0xAB]"
  by (simp add: key_abc xorEncryptDecrypt_def key_at_def)

lemma b64_55c7ab: "b64_encode [0x55, 0xC7, 0xAB] = js ''Vcer''"
  by code_simp

lemma encode_lone_surrogate: "TextEncoder_encode [0xD800] = [0xEF, 0xBF, 0xBD]"
  by (simp add: TextEncoder_encode_def is_lead_def is_trail_def utf8_bytes_def)

lemma decode_replacement: "TextDecoder_decode [0xEF, 0xBF, 0xBD] = [0xFFFD]"
  by (simp add: TextDecoder_decode_def utf8_decoder.simps strip_bom_def utf16_units_def)

lemma xor_bom_hi:
  "xorEncryptDecrypt [0xEF, 0xBB, 0xBF, 0x68, 0x69] (sha256 (TextEncoder_encode (js ''abc'')))
   = [0x55, 0xC3, 0xA9, 0xD7, 0xE6]"
  by (simp add: key_abc xorEncryptDecrypt_def key_at_def)

lemma b64_bom_hi: "b64_encode [0x55, 0xC3, 0xA9, 0xD7, 0xE6] = js ''VcOp1+Y=''"
  by code_simp

lemma encode_bom_hi: "TextEncoder_encode [0xFEFF, 0x68, 0x69] = [0xEF, 0xBB, 0xBF, 0x68, 0x69]"
  by (simp add: TextEncoder_encode_def is_lead_def is_trail_def utf8_bytes_def)

lemma decode_bom_hi: "TextDecoder_decode [0xEF, 0xBB, 0xBF, 0x68, 0x69] = js ''hi''"
  by (simp add: TextDecoder_decode_def utf8_decoder.simps strip_bom_def utf16_units_def js_def)

lemma encrypt_lone_surrogate:
  "handleEncrypt_base64 65536 [0xD800] (js ''abc'') = Inr (js ''Vcer'')"
  by (simp add: handleEncrypt_base64_short encode_lone_surrogate xor_replacement b64_55c7ab)

lemma decrypt_Vcer: "handleDecrypt_try (js ''Vcer'') (js ''abc'') = Inr [0xFFFD]"
  using handleDecrypt_try_encoded [of "[0xEF, 0xBF, 0xBD]" "js ''abc''"]
  by (simp add: xor_replacement b64_55c7ab decode_replacement)

lemma encrypt_bom_hi:
  "handleEncrypt_base64 65536 [0xFEFF, 0x68, 0x69] (js ''abc'') = Inr (js ''VcOp1+Y='')"
  by (simp add: handleEncrypt_base64_short encode_bom_hi xor_bom_hi b64_bom_hi)

lemma decrypt_bom_hi: "handleDecrypt_try (js ''VcOp1+Y='') (js ''abc'') = Inr (js ''hi'')"
  using handleDecrypt_try_encoded [of "[0xEF, 0xBB, 0xBF, 0x68, 0x69]" "js ''abc''"]
  by (simp add: xor_bom_hi b64_bom_hi decode_bom_hi)

text \<open>A plaintext of 130000 letters "a" has more UTF-8 bytes than 125000.\<close>

lemma long_plaintext: "125000 < length (TextEncoder_encode (replicate 130000 0x61))"
proof -
  have "length (replicate 130000 (0x61 :: code_unit)) \<le> length (TextEncoder_encode (replicate 130000 0x61))"
    by (rule encode_length_ge)
  then show ?thesis
    by (simp only: length_replicate)
qed

text \<open>
  The plaintext that is one lead surrogate, U+D800: the ciphertext is \<^verbatim>\<open>Vcer\<close>, and
  decrypting it returns U+FFFD; \<^verbatim>\<open>handleEncrypt\<close> stores \<^verbatim>\<open>Vcer\<close> and \<^verbatim>\<open>handleDecrypt\<close>
  on it shows U+FFFD. The plaintext U+FEFF "hi": the ciphertext is \<^verbatim>\<open>VcOp1+Y=\<close>, and
  decrypting it returns "hi" without the U+FEFF. The plaintext of 130000 letters "a" in an
  engine that accepts 125000 arguments in a call: \<^verbatim>\<open>String.fromCharCode(...encrypted)\<close>
  throws a \<^verbatim>\<open>RangeError\<close>, no ciphertext is computed and \<^verbatim>\<open>handleEncrypt\<close> stores nothing.
\<close>

theorem C1_roundtrip_counterexample:
  "handleEncrypt_base64 65536 [0xD800] (js ''abc'') = Inr (js ''Vcer'') \<and>
   handleDecrypt_try (js ''Vcer'') (js ''abc'') = Inr [0xFFFD] \<and>
   handleEncrypt 65536 7 (example_state [0xD800] (js ''abc'') encrypt) =
     Inr ((example_state [] (js ''abc'') encrypt)
          \<lparr>st_result := js ''Vcer'',
            messages := [\<lparr>sender = js ''bob'', password = [], text' = js ''Vcer'',
                          mode = encrypt, timestamp = 7\<rparr>]\<rparr>) \<and>
   st_result (handleDecrypt (example_state (js ''Vcer'') (js ''abc'') decrypt)) = [0xFFFD] \<and>
   handleEncrypt_base64 65536 [0xFEFF, 0x68, 0x69] (js ''abc'') = Inr (js ''VcOp1+Y='') \<and>
   handleDecrypt_try (js ''VcOp1+Y='') (js ''abc'') = Inr (js ''hi'') \<and>
   handleEncrypt 65536 7 (example_state [0xFEFF, 0x68, 0x69] (js ''abc'') encrypt) =
     Inr ((example_state [] (js ''abc'') encrypt)
          \<lparr>st_result := js ''VcOp1+Y='',
            messages := [\<lparr>sender = js ''bob'', password = [], text' = js ''VcOp1+Y='',
                          mode = encrypt, timestamp = 7\<rparr>]\<rparr>) \<and>
   st_result (handleDecrypt (example_state (js ''VcOp1+Y='') (js ''abc'') decrypt)) = js ''hi'' \<and>
   handleEncrypt_base64 125000 (replicate 130000 0x61) (js ''abc'') = Inl RangeError \<and>
   handleEncrypt 125000 7 (example_state (replicate 130000 0x61) (js ''abc'') encrypt) = Inl RangeError"
proof -
  have enc: "handleEncrypt 65536 7 (example_state [0xD800] (js ''abc'') encrypt) =
     Inr ((example_state [] (js ''abc'') encrypt)
          \<lparr>st_result := js ''Vcer'',
            messages := [\<lparr>sender = js ''bob'', password = [], text' = js ''Vcer'',
                          mode = encrypt, timestamp = 7\<rparr>]\<rparr>)"
    by (simp add: handleEncrypt_def example_state_def encrypt_lone_surrogate) (simp add: js_def)
  have dec: "st_result (handleDecrypt (example_state (js ''Vcer'') (js ''abc'') decrypt)) = [0xFFFD]"
    by (simp add: handleDecrypt_def example_state_def decrypt_Vcer) (simp add: js_def)
  have encb: "handleEncrypt 65536 7 (example_state [0xFEFF, 0x68, 0x69] (js ''abc'') encrypt) =
     Inr ((example_state [] (js ''abc'') encrypt)
          \<lparr>st_result := js ''VcOp1+Y='',
            messages := [\<lparr>sender = js ''bob'', password = [], text' = js ''VcOp1+Y='',
                          mode = encrypt, timestamp = 7\<rparr>]\<rparr>)"
    by (simp add: handleEncrypt_def example_state_def encrypt_bom_hi) (simp add: js_def)
  have decb: "st_result (handleDecrypt (example_state (js ''VcOp1+Y='') (js ''abc'') decrypt)) = js ''hi''"
    by (simp add: handleDecrypt_def example_state_def decrypt_bom_hi) (simp add: js_def)
  have long: "handleEncrypt_base64 125000 (replicate 130000 0x61) (js ''abc'') = Inl RangeError"
    by (rule handleEncrypt_base64_long [OF long_plaintext])
  have "replicate 130000 (0x61 :: code_unit) \<noteq> []"
    by (simp only: replicate_empty)
  with long have longh: "handleEncrypt 125000 7 (example_state (replicate 130000 0x61) (js ''abc'') encrypt)
      = Inl RangeError"
    by (simp add: handleEncrypt_def example_state_def) (simp add: js_def)
  from encrypt_lone_surrogate decrypt_Vcer enc dec encrypt_bom_hi decrypt_bom_hi encb decb long longh
  show ?thesis
    by blast
qed


section \<open>Decryption of malformed input\<close>

lemma atob_rejects: "atob enc = Inl InvalidCharacterError \<longleftrightarrow> base64_rejected enc"
  by (auto simp add: atob_def base64_rejected_def Let_def)

lemma atob_Inl_iff: "isl (atob enc) \<longleftrightarrow> base64_rejected enc"
  by (auto simp add: atob_def base64_rejected_def Let_def)

lemma handleDecrypt_try_fails_iff:
  "isl (handleDecrypt_try enc pw) \<longleftrightarrow> base64_rejected enc"
  using atob_Inl_iff [of enc]
  by (cases "atob enc") (simp_all add: handleDecrypt_try_def derive_async Let_def)

lemma handleDecrypt_rejected:
  assumes "base64_rejected (st_text s)" "st_text s \<noteq> []" "st_password s \<noteq> []"
  shows "handleDecrypt s = s\<lparr>st_result := decrypt_failed_message\<rparr>"
proof -
  from assms(1) have "isl (handleDecrypt_try (st_text s) (st_password s))"
    by (simp add: handleDecrypt_try_fails_iff)
  then obtain e where "handleDecrypt_try (st_text s) (st_password s) = Inl e"
    by (cases "handleDecrypt_try (st_text s) (st_password s)") simp_all
  with assms(2,3) show ?thesis
    by (simp add: handleDecrypt_def)
qed

lemma handleProcess_rejected:
  assumes "base64_rejected (st_text s)" "st_text s \<noteq> []" "st_mode s = decrypt"
  shows "handleProcess max_args now s = Inr (s\<lparr>alerts := alerts s @ [not_base64_message]\<rparr>)"
proof -
  from assms(1) have "atob (st_text s) = Inl InvalidCharacterError"
    by (simp add: atob_rejects)
  with assms(2,3) show ?thesis
    by (simp add: handleProcess_def)
qed

lemma not_base64_rejected: "base64_rejected (js ''not-base64!!'')"
  by code_simp

lemma atob_unpadded: "atob (js ''0hE'') = Inr [0xD2, 0x11]"
  by code_simp

lemma atob_RQ: "atob (js ''RQ=='') = Inr [0x45]"
  by code_simp

lemma decode_ff: "TextDecoder_decode [0xFF] = [0xFFFD]"
  by (simp add: TextDecoder_decode_def utf8_decoder.simps strip_bom_def utf16_units_def)

lemma decode_hi: "TextDecoder_decode [0x68, 0x69] = js ''hi''"
  by (simp add: TextDecoder_decode_def utf8_decoder.simps strip_bom_def utf16_units_def js_def)

text \<open>
  C5. The specification: when the XOR result is not valid UTF-8, decryption fails with
  InvalidText.
  The code at such an input: the text \<^verbatim>\<open>RQ==\<close> is valid Base64 of the byte \<open>0x45\<close>, which
  under the password "abc" decrypts to the byte \<open>0xFF\<close>, not valid UTF-8. Both decrypting
  handlers show the string U+FFFD as the result; the \<^verbatim>\<open>catch\<close> block is not entered.
  (Decryption makes no call with spread arguments: the result is the same for every
  \<open>max_args\<close>.)
\<close>

theorem C5_invalid_utf8_returns_replacement:
  "handleDecrypt (example_state (js ''RQ=='') (js ''abc'') decrypt)
     = (example_state (js ''RQ=='') (js ''abc'') decrypt)\<lparr>st_result := [0xFFFD]\<rparr> \<and>
   handleProcess_bytes max_args 7 (example_state (js ''RQ=='') (js ''abc'') decrypt)
     = Inr ((example_state [] (js ''abc'') decrypt)\<lparr>st_result := [0xFFFD]\<rparr>) \<and>
   [0xFFFD] \<noteq> decrypt_failed_message"
proof -
  have "handleDecrypt_try (js ''RQ=='') (js ''abc'') = Inr [0xFFFD]"
    by (simp add: handleDecrypt_try_def derive_async atob_RQ key_abc key_at_def decode_ff)
  then have a: "handleDecrypt (example_state (js ''RQ=='') (js ''abc'') decrypt)
     = (example_state (js ''RQ=='') (js ''abc'') decrypt)\<lparr>st_result := [0xFFFD]\<rparr>"
    by (simp add: handleDecrypt_def example_state_def js_def)
  have "xorEncryptDecrypt [0x45] (sha256 (TextEncoder_encode (js ''abc''))) = [0xFF]"
    by (simp add: key_abc xorEncryptDecrypt_def key_at_def)
  then have b: "handleProcess_bytes max_args 7 (example_state (js ''RQ=='') (js ''abc'') decrypt)
     = Inr ((example_state [] (js ''abc'') decrypt)\<lparr>st_result := [0xFFFD]\<rparr>)"
    by (simp add: handleProcess_bytes_def derive_bytes example_state_def atob_RQ decode_ff)
       (simp add: js_def)
  have "[0xFFFD] \<noteq> decrypt_failed_message"
    by (simp add: decrypt_failed_message_def)
  with a b show ?thesis
    by blast
qed

text \<open>
  C7, as the code has it. For every non-empty input that the decoder of \<^verbatim>\<open>atob\<close>
  refuses (after removing ASCII whitespace and trailing padding, its length is 1 modulo 4
  or it has a character outside the alphabet), decryption fails: \<^verbatim>\<open>handleDecrypt\<close>, for a
  non-empty password, shows its failure text, the legacy \<^verbatim>\<open>handleProcess\<close> in decrypt
  mode alerts. These are the only inputs on which the \<^verbatim>\<open>try\<close> block throws, whatever the
  password. The input \<^verbatim>\<open>not-base64!!\<close> is such an input.
\<close>

theorem C7_malformed_base64_fails:
  assumes "base64_rejected (st_text s)" and "st_text s \<noteq> []"
  shows "(st_password s \<noteq> [] \<longrightarrow> handleDecrypt s = s\<lparr>st_result := decrypt_failed_message\<rparr>) \<and>
         (st_mode s = decrypt \<longrightarrow>
            handleProcess max_args now s = Inr (s\<lparr>alerts := alerts s @ [not_base64_message]\<rparr>)) \<and>
         (isl (handleDecrypt_try enc pw) \<longleftrightarrow> base64_rejected enc)"
  using assms
  by (simp add: handleDecrypt_rejected handleProcess_rejected handleDecrypt_try_fails_iff)

text \<open>The input \<^verbatim>\<open>not-base64!!\<close> with the password "abc".\<close>

theorem C7_malformed_base64_fails_witness:
  "base64_rejected (st_text (example_state (js ''not-base64!!'') (js ''abc'') decrypt)) \<and>
   st_text (example_state (js ''not-base64!!'') (js ''abc'') decrypt) \<noteq> [] \<and>
   handleDecrypt (example_state (js ''not-base64!!'') (js ''abc'') decrypt)
     = (example_state (js ''not-base64!!'') (js ''abc'') decrypt)
         \<lparr>st_result := decrypt_failed_message\<rparr> \<and>
   handleProcess 65536 7 (example_state (js ''not-base64!!'') (js ''abc'') decrypt)
     = Inr ((example_state (js ''not-base64!!'') (js ''abc'') decrypt)
         \<lparr>alerts := [not_base64_message]\<rparr>) \<and>
   isl (handleDecrypt_try (js ''not-base64!!'') (js ''abc''))"
proof -
  let ?s = "example_state (js ''not-base64!!'') (js ''abc'') decrypt"
  have t: "st_text ?s = js ''not-base64!!''"
    by (simp add: example_state_def)
  have h: "base64_rejected (st_text ?s)" "st_text ?s \<noteq> []"
    by (simp_all add: example_state_def not_base64_rejected) (simp add: js_def)
  have p: "st_password ?s \<noteq> []" "st_mode ?s = decrypt" "alerts ?s = []"
    by (simp_all add: example_state_def js_def)
  from C7_malformed_base64_fails [OF h, of 65536 7 "js ''not-base64!!''" "js ''abc''"] p h t show ?thesis
    by simp
qed

lemma atob_spaced: "atob (js '' 0h E= '') = Inr [0xD2, 0x11]"
  by code_simp

text \<open>
  The input \<^verbatim>\<open>0hE\<close> is not padded Base64 (its length is 3), and decryption under the
  password "abc" does not fail: it shows "hi". So does the padded text with spaces in it.
  With the empty password, \<^verbatim>\<open>handleDecrypt\<close> returns at its guard: no failure is shown
  for \<^verbatim>\<open>not-base64!!\<close>.
\<close>

theorem C7_forgiving_decoder_counterexample:
  "length (js ''0hE'') mod 4 \<noteq> 0 \<and>
   handleDecrypt (example_state (js ''0hE'') (js ''abc'') decrypt)
     = (example_state (js ''0hE'') (js ''abc'') decrypt)\<lparr>st_result := js ''hi''\<rparr> \<and>
   handleDecrypt (example_state (js '' 0h E= '') (js ''abc'') decrypt)
     = (example_state (js '' 0h E= '') (js ''abc'') decrypt)\<lparr>st_result := js ''hi''\<rparr> \<and>
   js ''hi'' \<noteq> decrypt_failed_message \<and>
   handleDecrypt (example_state (js ''not-base64!!'') [] decrypt)
     = example_state (js ''not-base64!!'') [] decrypt"
proof -
  have "handleDecrypt_try (js ''0hE'') (js ''abc'') = Inr (js ''hi'')"
    by (simp add: handleDecrypt_try_def derive_async atob_unpadded key_abc key_at_def decode_hi is_lead_def)
  then have a: "handleDecrypt (example_state (js ''0hE'') (js ''abc'') decrypt)
     = (example_state (js ''0hE'') (js ''abc'') decrypt)\<lparr>st_result := js ''hi''\<rparr>"
    by (simp add: handleDecrypt_def example_state_def) (simp add: js_def)
  have "handleDecrypt_try (js '' 0h E= '') (js ''abc'') = Inr (js ''hi'')"
    by (simp add: handleDecrypt_try_def derive_async atob_spaced key_abc key_at_def decode_hi is_lead_def)
  then have b: "handleDecrypt (example_state (js '' 0h E= '') (js ''abc'') decrypt)
     = (example_state (js '' 0h E= '') (js ''abc'') decrypt)\<lparr>st_result := js ''hi''\<rparr>"
    by (simp add: handleDecrypt_def example_state_def) (simp add: js_def)
  have c: "js ''hi'' \<noteq> decrypt_failed_message" "length (js ''0hE'') mod 4 \<noteq> 0"
    by (simp_all add: decrypt_failed_message_def js_def)
  have d: "handleDecrypt (example_state (js ''not-base64!!'') [] decrypt)
     = example_state (js ''not-base64!!'') [] decrypt"
    by (simp add: handleDecrypt_def example_state_def)
  from a b c d show ?thesis
    by blast
qed


section \<open>The legacy key derivation is the rolling hash\<close>

lemma deriveKey_loop_foldl:
  "deriveKey_loop pw i hash =
     foldl (\<lambda>hash c. (hash * 31 + unat c) mod 256) hash (drop i pw)"
proof (induction pw i hash rule: deriveKey_loop.induct)
  case (1 pw i hash)
  show ?case
  proof (cases "i < length pw")
    case True
    then have "drop i pw = pw ! i # drop (Suc i) pw"
      by (simp add: Cons_nth_drop_Suc)
    with True "1" show ?thesis
      by (subst deriveKey_loop.simps) simp
  next
    case False
    then show ?thesis
      by (subst deriveKey_loop.simps) simp
  qed
qed

lemma deriveKey_rolling: "deriveKeyFromPassword pw = rolling_hash_spec pw"
  by (simp add: deriveKeyFromPassword_def rolling_hash_spec_def deriveKey_loop_foldl)

section \<open>What the handlers write to the log\<close>

lemma btoa_bytes_comp:
  "btoa (map (ucast \<circ> f) xs) = Inr (b64_encode (map f xs :: byte list))"
  using btoa_bytes [of "map f xs"] by simp

lemma handleProcess_encrypt_stores:
  assumes "st_text s \<noteq> []" "st_password s \<noteq> []" "st_sender s \<noteq> []" "st_mode s = encrypt"
    and "length (TextEncoder_encode (st_text s)) \<le> max_args"
  shows "handleProcess max_args now s =
    Inr (s\<lparr>messages := messages s @
            [\<lparr>sender = st_sender s, password = js ''***'',
              text' = b64_encode (map (\<lambda>b. b XOR word_of_nat (deriveKeyFromPassword (st_password s)))
                                   (TextEncoder_encode (st_text s))),
              mode = encrypt, timestamp = now\<rparr>],
          st_text := []\<rparr>)"
  using assms by (simp add: handleProcess_def fromCharCode_def btoa_bytes_comp Let_def)

lemma handleProcess_encrypt_throws:
  assumes "st_text s \<noteq> []" "st_password s \<noteq> []" "st_sender s \<noteq> []" "st_mode s = encrypt"
    and "max_args < length (TextEncoder_encode (st_text s))"
  shows "handleProcess max_args now s = Inl RangeError"
  using assms by (simp add: handleProcess_def fromCharCode_def Let_def)

lemma handleProcess_bytes_encrypt_stores:
  assumes "st_text s \<noteq> []" "st_password s \<noteq> []" "st_sender s \<noteq> []" "st_mode s = encrypt"
    and "length (TextEncoder_encode (st_text s)) \<le> max_args"
  shows "handleProcess_bytes max_args now s =
    Inr (s\<lparr>messages := messages s @
            [\<lparr>sender = st_sender s, password = js ''***'',
              text' = b64_encode (xorEncryptDecrypt (TextEncoder_encode (st_text s))
                                   (sha256 (TextEncoder_encode (st_password s)))),
              mode = encrypt, timestamp = now\<rparr>],
          st_text := []\<rparr>)"
  using assms
  by (simp add: handleProcess_bytes_def derive_bytes fromCharCode_def btoa_bytes Let_def
      xorEncryptDecrypt_length)

text \<open>A run appends no record, or one record; its password field is the constant.\<close>

lemma handleProcess_appends:
  "list_all (\<lambda>r. password r = js ''***'') (stored s (handleProcess max_args now s))"
  by (simp add: handleProcess_def stored_def Let_def split: sum.splits)

lemma handleProcess_bytes_appends:
  "list_all (\<lambda>r. password r = js ''***'') (stored s (handleProcess_bytes max_args now s))"
  by (simp add: handleProcess_bytes_def stored_def Let_def split: sum.splits)

lemma handleEncrypt_appends:
  "list_all (\<lambda>r. password r = []) (stored s (handleEncrypt max_args now s))"
  by (simp add: handleEncrypt_def stored_def split: sum.splits)

lemma same_constant:
  assumes "list_all (\<lambda>r. password r = k) xs" "list_all (\<lambda>r. password r = k) ys"
  shows "list_all (\<lambda>r1. list_all (\<lambda>r2. password r1 = password r2) ys) xs"
  using assms by (simp add: list_all_iff)

text \<open>
  C8. Every record a handler appends to the log, in every run (any state, any sender,
  plaintext and password), holds a constant in its password field: \<^verbatim>\<open>"***"\<close> for both
  revisions of \<^verbatim>\<open>handleProcess\<close>, the empty string for \<^verbatim>\<open>handleEncrypt\<close>. So the
  password fields of the records of any two runs are identical, whatever the two
  passwords. A run that encrypts (plaintext, password and sender not empty) a plaintext
  whose UTF-8 encoding the engine accepts as arguments of one call appends exactly one
  record.
\<close>

theorem C8_stored_password_is_constant:
  "list_all (\<lambda>r. password r = js ''***'') (stored s1 (handleProcess a1 n1 s1)) \<and>
   list_all (\<lambda>r. password r = js ''***'') (stored s1 (handleProcess_bytes a1 n1 s1)) \<and>
   list_all (\<lambda>r. password r = []) (stored s1 (handleEncrypt a1 n1 s1)) \<and>
   list_all (\<lambda>r1. list_all (\<lambda>r2. password r1 = password r2) (stored s2 (handleProcess a2 n2 s2)))
            (stored s1 (handleProcess a1 n1 s1)) \<and>
   list_all (\<lambda>r1. list_all (\<lambda>r2. password r1 = password r2) (stored s2 (handleProcess_bytes a2 n2 s2)))
            (stored s1 (handleProcess_bytes a1 n1 s1)) \<and>
   list_all (\<lambda>r1. list_all (\<lambda>r2. password r1 = password r2) (stored s2 (handleEncrypt a2 n2 s2)))
            (stored s1 (handleEncrypt a1 n1 s1)) \<and>
   (st_text s1 \<noteq> [] \<and> st_password s1 \<noteq> [] \<and> st_sender s1 \<noteq> [] \<and> st_mode s1 = encrypt \<and>
    length (TextEncoder_encode (st_text s1)) \<le> a1 \<longrightarrow>
      map password (stored s1 (handleProcess a1 n1 s1)) = [js ''***''] \<and>
      map password (stored s1 (handleProcess_bytes a1 n1 s1)) = [js ''***''] \<and>
      map password (stored s1 (handleEncrypt a1 n1 s1)) = [[]])"
proof -
  have one: "map password (stored s1 (handleProcess a1 n1 s1)) = [js ''***''] \<and>
      map password (stored s1 (handleProcess_bytes a1 n1 s1)) = [js ''***''] \<and>
      map password (stored s1 (handleEncrypt a1 n1 s1)) = [[]]"
    if "st_text s1 \<noteq> [] \<and> st_password s1 \<noteq> [] \<and> st_sender s1 \<noteq> [] \<and> st_mode s1 = encrypt \<and>
        length (TextEncoder_encode (st_text s1)) \<le> a1"
    using that
    by (simp add: handleProcess_encrypt_stores handleProcess_bytes_encrypt_stores
        handleEncrypt_stores [OF _ _ _ handleEncrypt_base64_short] stored_def)
  from one
    handleProcess_appends [of s1 a1 n1] handleProcess_bytes_appends [of s1 a1 n1]
    handleEncrypt_appends [of s1 a1 n1]
    same_constant [OF handleProcess_appends [of s1 a1 n1] handleProcess_appends [of s2 a2 n2]]
    same_constant [OF handleProcess_bytes_appends [of s1 a1 n1] handleProcess_bytes_appends [of s2 a2 n2]]
    same_constant [OF handleEncrypt_appends [of s1 a1 n1] handleEncrypt_appends [of s2 a2 n2]]
  show ?thesis
    by blast
qed

text \<open>
  Two runs in an engine that accepts 65536 arguments: "hi" under the password "abc" and
  "ho" under the password "aA". Each appends one record, and the password fields are the
  same.
\<close>

theorem C8_stored_password_is_constant_witness:
  "st_text (example_state (js ''hi'') (js ''abc'') encrypt) \<noteq> [] \<and>
   st_password (example_state (js ''hi'') (js ''abc'') encrypt) \<noteq> [] \<and>
   st_sender (example_state (js ''hi'') (js ''abc'') encrypt) \<noteq> [] \<and>
   st_mode (example_state (js ''hi'') (js ''abc'') encrypt) = encrypt \<and>
   length (TextEncoder_encode (st_text (example_state (js ''hi'') (js ''abc'') encrypt))) \<le> 65536 \<and>
   st_password (example_state (js ''hi'') (js ''abc'') encrypt)
     \<noteq> st_password (example_state (js ''ho'') (js ''aA'') encrypt) \<and>
   map password (stored (example_state (js ''hi'') (js ''abc'') encrypt)
       (handleProcess 65536 7 (example_state (js ''hi'') (js ''abc'') encrypt))) = [js ''***''] \<and>
   map password (stored (example_state (js ''hi'') (js ''abc'') encrypt)
       (handleProcess_bytes 65536 7 (example_state (js ''hi'') (js ''abc'') encrypt))) = [js ''***''] \<and>
   map password (stored (example_state (js ''hi'') (js ''abc'') encrypt)
       (handleEncrypt 65536 7 (example_state (js ''hi'') (js ''abc'') encrypt))) = [[]] \<and>
   list_all (\<lambda>r1. list_all (\<lambda>r2. password r1 = password r2)
                (stored (example_state (js ''ho'') (js ''aA'') encrypt)
                   (handleProcess 65536 8 (example_state (js ''ho'') (js ''aA'') encrypt))))
            (stored (example_state (js ''hi'') (js ''abc'') encrypt)
               (handleProcess 65536 7 (example_state (js ''hi'') (js ''abc'') encrypt))) \<and>
   list_all (\<lambda>r1. list_all (\<lambda>r2. password r1 = password r2)
                (stored (example_state (js ''ho'') (js ''aA'') encrypt)
                   (handleEncrypt 65536 8 (example_state (js ''ho'') (js ''aA'') encrypt))))
            (stored (example_state (js ''hi'') (js ''abc'') encrypt)
               (handleEncrypt 65536 7 (example_state (js ''hi'') (js ''abc'') encrypt)))"
proof -
  let ?s1 = "example_state (js ''hi'') (js ''abc'') encrypt"
  let ?s2 = "example_state (js ''ho'') (js ''aA'') encrypt"
  have h1: "st_text ?s1 \<noteq> []" "st_password ?s1 \<noteq> []" "st_sender ?s1 \<noteq> []" "st_mode ?s1 = encrypt"
    "length (TextEncoder_encode (st_text ?s1)) \<le> 65536"
    by (simp_all add: example_state_def encode_hi) (simp_all add: js_def)
  have "st_password ?s1 \<noteq> st_password ?s2"
    by (simp add: example_state_def js_def)
  with h1 C8_stored_password_is_constant [of ?s1 65536 7 ?s2 65536 8] show ?thesis
    by blast
qed

lemma xor_zero_bytes: "map (\<lambda>b. b XOR word_of_nat 0) bs = (bs :: byte list)"
  by (induction bs) simp_all

text \<open>
  C10, as the code has it. In the legacy revision the empty password derives key 0 and
  XOR with key 0 is the identity on bytes. With the empty password \<^verbatim>\<open>handleProcess\<close>
  returns at its guard and stores nothing. With a non-empty password that derives key 0,
  a non-empty sender and a non-empty plaintext whose UTF-8 encoding has no more bytes than
  the engine accepts arguments in one call, it stores exactly the Base64 encoding of the
  UTF-8 bytes of the plaintext. With more bytes, \<^verbatim>\<open>String.fromCharCode(...encrypted)\<close>
  throws a \<^verbatim>\<open>RangeError\<close> and nothing is stored.
\<close>

theorem C10_key_zero_stores_plain_base64:
  "deriveKeyFromPassword [] = 0 \<and>
   map (\<lambda>b. b XOR word_of_nat 0) bs = (bs :: byte list) \<and>
   (st_mode s = encrypt \<and> st_password s = [] \<longrightarrow> handleProcess max_args now s = Inr s) \<and>
   (st_mode s = encrypt \<and> st_text s \<noteq> [] \<and> st_sender s \<noteq> [] \<and> st_password s \<noteq> [] \<and>
    deriveKeyFromPassword (st_password s) = 0 \<and>
    length (TextEncoder_encode (st_text s)) \<le> max_args \<longrightarrow>
      handleProcess max_args now s =
        Inr (s\<lparr>messages := messages s @
                [\<lparr>sender = st_sender s, password = js ''***'',
                  text' = b64_encode (TextEncoder_encode (st_text s)),
                  mode = encrypt, timestamp = now\<rparr>],
              st_text := []\<rparr>)) \<and>
   (st_mode s = encrypt \<and> st_text s \<noteq> [] \<and> st_sender s \<noteq> [] \<and> st_password s \<noteq> [] \<and>
    max_args < length (TextEncoder_encode (st_text s)) \<longrightarrow>
      handleProcess max_args now s = Inl RangeError)"
proof -
  have "deriveKeyFromPassword [] = 0"
    by (simp add: deriveKey_rolling rolling_hash_spec_def)
  moreover have "st_mode s = encrypt \<and> st_password s = [] \<longrightarrow> handleProcess max_args now s = Inr s"
    by (simp add: handleProcess_def)
  moreover have "st_mode s = encrypt \<and> st_text s \<noteq> [] \<and> st_sender s \<noteq> [] \<and> st_password s \<noteq> [] \<and>
    deriveKeyFromPassword (st_password s) = 0 \<and>
    length (TextEncoder_encode (st_text s)) \<le> max_args \<longrightarrow>
      handleProcess max_args now s =
        Inr (s\<lparr>messages := messages s @
                [\<lparr>sender = st_sender s, password = js ''***'',
                  text' = b64_encode (TextEncoder_encode (st_text s)),
                  mode = encrypt, timestamp = now\<rparr>],
              st_text := []\<rparr>)"
    by (simp add: handleProcess_encrypt_stores)
  moreover have "st_mode s = encrypt \<and> st_text s \<noteq> [] \<and> st_sender s \<noteq> [] \<and> st_password s \<noteq> [] \<and>
    max_args < length (TextEncoder_encode (st_text s)) \<longrightarrow>
      handleProcess max_args now s = Inl RangeError"
    by (simp add: handleProcess_encrypt_throws)
  ultimately show ?thesis
    using xor_zero_bytes [of bs] by blast
qed

text \<open>The password "aA" derives key 0: \<open>(97 * 31 + 65) mod 256 = 0\<close>.\<close>

lemma key_aA: "deriveKeyFromPassword (js ''aA'') = 0"
  by (simp add: deriveKey_rolling rolling_hash_spec_def js_def)

lemma b64_hi: "b64_encode [0x68, 0x69] = js ''aGk=''"
  by code_simp

text \<open>
  In an engine that accepts 65536 arguments, the plaintext "hi" under the password "aA"
  is stored as \<^verbatim>\<open>aGk=\<close>, the Base64 of "hi"; under the empty password nothing is stored.
  In an engine that accepts 125000 arguments, the plaintext of 130000 letters "a" under
  the password "aA" is not stored.
\<close>

theorem C10_key_zero_stores_plain_base64_witness:
  "st_mode (example_state (js ''hi'') (js ''aA'') encrypt) = encrypt \<and>
   st_text (example_state (js ''hi'') (js ''aA'') encrypt) \<noteq> [] \<and>
   st_sender (example_state (js ''hi'') (js ''aA'') encrypt) \<noteq> [] \<and>
   st_password (example_state (js ''hi'') (js ''aA'') encrypt) \<noteq> [] \<and>
   deriveKeyFromPassword (st_password (example_state (js ''hi'') (js ''aA'') encrypt)) = 0 \<and>
   length (TextEncoder_encode (st_text (example_state (js ''hi'') (js ''aA'') encrypt))) \<le> 65536 \<and>
   handleProcess 65536 7 (example_state (js ''hi'') (js ''aA'') encrypt) =
     Inr ((example_state [] (js ''aA'') encrypt)
       \<lparr>messages := [\<lparr>sender = js ''bob'', password = js ''***'', text' = js ''aGk='',
                       mode = encrypt, timestamp = 7\<rparr>]\<rparr>) \<and>
   handleProcess 65536 7 (example_state (js ''hi'') [] encrypt) = Inr (example_state (js ''hi'') [] encrypt) \<and>
   125000 < length (TextEncoder_encode (st_text (example_state (replicate 130000 0x61) (js ''aA'') encrypt))) \<and>
   handleProcess 125000 7 (example_state (replicate 130000 0x61) (js ''aA'') encrypt) = Inl RangeError"
proof -
  let ?s = "example_state (js ''hi'') (js ''aA'') encrypt"
  have h: "st_mode ?s = encrypt \<and> st_text ?s \<noteq> [] \<and> st_sender ?s \<noteq> [] \<and> st_password ?s \<noteq> [] \<and>
    deriveKeyFromPassword (st_password ?s) = 0 \<and> length (TextEncoder_encode (st_text ?s)) \<le> 65536"
    by (simp add: example_state_def key_aA encode_hi) (simp add: js_def)
  have e: "st_mode (example_state (js ''hi'') [] encrypt) = encrypt \<and>
           st_password (example_state (js ''hi'') [] encrypt) = []"
    by (simp add: example_state_def)
  from h C10_key_zero_stores_plain_base64 [of "[]" ?s 65536 7]
  have "handleProcess 65536 7 ?s =
        Inr (?s\<lparr>messages := messages ?s @
                [\<lparr>sender = st_sender ?s, password = js ''***'',
                  text' = b64_encode (TextEncoder_encode (st_text ?s)),
                  mode = encrypt, timestamp = 7\<rparr>],
              st_text := []\<rparr>)"
    by blast
  then have stores: "handleProcess 65536 7 ?s =
     Inr ((example_state [] (js ''aA'') encrypt)
       \<lparr>messages := [\<lparr>sender = js ''bob'', password = js ''***'', text' = js ''aGk='',
                       mode = encrypt, timestamp = 7\<rparr>]\<rparr>)"
    by (simp add: example_state_def encode_hi b64_hi)
  from e C10_key_zero_stores_plain_base64 [of "[]" "example_state (js ''hi'') [] encrypt" 65536 7]
  have guard: "handleProcess 65536 7 (example_state (js ''hi'') [] encrypt)
      = Inr (example_state (js ''hi'') [] encrypt)"
    by blast
  let ?l = "example_state (replicate 130000 0x61) (js ''aA'') encrypt"
  have "replicate 130000 (0x61 :: code_unit) \<noteq> []"
    by (simp only: replicate_empty)
  then have l: "st_mode ?l = encrypt \<and> st_text ?l \<noteq> [] \<and> st_sender ?l \<noteq> [] \<and> st_password ?l \<noteq> [] \<and>
    125000 < length (TextEncoder_encode (st_text ?l))"
    using long_plaintext by (simp add: example_state_def) (simp add: js_def)
  with C10_key_zero_stores_plain_base64 [of "[]" ?l 125000 7]
  have long: "handleProcess 125000 7 ?l = Inl RangeError"
    by blast
  from h stores guard l long show ?thesis
    by blast
qed

text \<open>The plaintext "hi" under the empty password: the state is unchanged, the log empty.\<close>

theorem C10_empty_password_counterexample:
  "handleProcess 65536 7 (example_state (js ''hi'') [] encrypt) = Inr (example_state (js ''hi'') [] encrypt) \<and>
   messages (example_state (js ''hi'') [] encrypt) = []"
  by (simp add: handleProcess_def example_state_def)

section \<open>The range of the legacy key\<close>

lemma rolling_hash_bound:
  "hash < 256 \<Longrightarrow> foldl (\<lambda>hash c. (hash * 31 + unat c) mod 256) hash cs < 256"
  by (induction cs arbitrary: hash) simp_all

text \<open>
  C9. The legacy derivation computes the rolling hash \<open>hash = (hash*31 + charCode) % 256\<close>
  from 0 over the password's char codes in order; the result is a single value in
  \<open>0..255\<close>, so at most 256 keys exist across all passwords.
\<close>

theorem C9_legacy_key_is_rolling_hash:
  "deriveKeyFromPassword pw = rolling_hash_spec pw \<and>
   deriveKeyFromPassword pw < 256 \<and>
   range deriveKeyFromPassword \<subseteq> {n. n < 256} \<and>
   card (range deriveKeyFromPassword) \<le> 256"
proof -
  have eq: "deriveKeyFromPassword p = rolling_hash_spec p" for p
    by (simp add: deriveKeyFromPassword_def rolling_hash_spec_def deriveKey_loop_foldl)
  have bound: "deriveKeyFromPassword p < 256" for p
    unfolding eq rolling_hash_spec_def by (rule rolling_hash_bound) simp
  have sub: "range deriveKeyFromPassword \<subseteq> {n. n < 256}"
    using bound by blast
  have "range deriveKeyFromPassword \<subseteq> {..<256}"
    unfolding lessThan_def by (rule sub)
  then have "card (range deriveKeyFromPassword) \<le> card {..<256::nat}"
    by (intro card_mono) (simp_all only: finite_lessThan)
  then have "card (range deriveKeyFromPassword) \<le> 256"
    by (simp only: card_lessThan)
  with eq bound sub show ?thesis
    by blast
qed


end
